theory Spec2Isabelle
  imports Complex_Main "HOL-Library.AList" "HOL-Library.Multiset" "HOL-Library.Product_Lexorder"
begin

section \<open>stniche: niche structure discovery on a hexagonal spot grid\<close>

text \<open>
  A shallow embedding of \<^verbatim>\<open>src/stniche/stniche.py\<close>. Each definition follows the text of
  the Python function of the same name, read the way its \<^verbatim>\<open>def\<close> header and indentation
  lay it out.

  Conventions of the model:
  \<^item> \<^verbatim>\<open>adata.obs\<close> is a list of rows (records of type \<open>spot\<close>), in table order;
  \<^item> a Python \<^verbatim>\<open>dict\<close> is an association list in insertion order; storing a value is
    \<open>AList.update\<close> (an existing key keeps its place, a new key goes last) and a lookup is
    \<open>map_of\<close>;
  \<^item> a Python \<^verbatim>\<open>set\<close> is a duplicate-free list (its iteration order is not fixed by the
    language; no theorem below depends on the order chosen here);
  \<^item> an exception is a value \<open>Inl e\<close> of type \<open>error + 'a\<close>;
  \<^item> numbers: grid coordinates are \<open>int\<close>; a float64 value is the rational number it
    stands for, and an operation of float64 arithmetic is the exact operation followed by
    the rounding \<open>fl64\<close> to the nearest float64 (subsection Floating point); the counts
    and per-sample ratios of GridAdjacency are kept as exact rationals;
  \<^item> \<^verbatim>\<open>scipy.stats.mannwhitneyu\<close>, \<^verbatim>\<open>multipletests\<close> of \<^verbatim>\<open>statsmodels\<close> and the method
    \<^verbatim>\<open>Series.mean\<close> of pandas are library code outside the repository: the functions that
    call them take them as parameters.
\<close>

subsection \<open>Data\<close>

record ('s, 'l, 'g) spot =
  array_row :: int
  array_col :: int
  sample_id :: 's
  cluster :: 'l
  group_label :: 'g

datatype error =
    FocusGroupNotInGroups  \<comment> \<open>the \<^verbatim>\<open>ValueError\<close> raised at line 205\<close>
  | NoObjectsToConcatenate \<comment> \<open>the \<^verbatim>\<open>ValueError\<close> of \<^verbatim>\<open>pd.concat\<close> on no frames\<close>
  | LengthMismatch         \<comment> \<open>the \<^verbatim>\<open>ValueError\<close> of \<^verbatim>\<open>pd.DataFrame\<close> on columns of unequal length\<close>
  | KeyError
  | IndexError

type_synonym coord = "int \<times> int"

text \<open>\<^verbatim>\<open>Series.unique()\<close>: the distinct values in order of first appearance.\<close>

definition unique :: "'a list \<Rightarrow> 'a list" where
  "unique xs = fold (\<lambda>x acc. if x \<in> set acc then acc else acc @ [x]) xs []"

text \<open>\<^verbatim>\<open>np.mean\<close> of a vector. (On the empty vector numpy gives NaN; the model is only
  read on a non-empty one, or its value is compared against no row at all.)\<close>

definition mean :: "rat list \<Rightarrow> rat" where
  "mean xs = sum_list xs / of_nat (length xs)"

text \<open>\<^verbatim>\<open>np.any\<close>: some entry is non-zero.\<close>

definition np_any :: "rat list \<Rightarrow> bool" where
  "np_any v = (\<exists>x \<in> set v. x \<noteq> 0)"

subsection \<open>Floating point\<close>

text \<open>
  A finite float64 value is a rational number, and IEEE 754 defines the result of \<open>+\<close>,
  \<open>-\<close>, \<open>*\<close>, \<open>/\<close> and of the square root as the exact result rounded to the nearest
  float64, a tie going to the value with an even significand. Infinities and NaN are not
  values of the model: it describes the operations as long as no result reaches
  \<open>2\<^sup>1\<^sup>0\<^sup>2\<^sup>4\<close> in magnitude.
\<close>

text \<open>\<^verbatim>\<open>rint\<close>: the nearest integer, a tie going to the even one.\<close>

definition rint :: "rat \<Rightarrow> int" where
  "rint v =
     (let f = \<lfloor>v\<rfloor>; r = v - of_int f
      in if r < 1 / 2 then f else if 1 / 2 < r then f + 1 else if even f then f else f + 1)"

text \<open>The power of two with an integer exponent, and \<open>\<lfloor>log\<^sub>2 n\<rfloor>\<close> for a positive integer.\<close>

definition pow2 :: "int \<Rightarrow> rat" where
  "pow2 e = (if 0 \<le> e then 2 ^ nat e else 1 / 2 ^ nat (- e))"

function log2_floor :: "int \<Rightarrow> int" where
  "log2_floor n = (if n < 2 then 0 else 1 + log2_floor (n div 2))"
  by pat_completeness auto
termination
  by (relation "measure nat") auto

text \<open>The binary exponent of a non-zero rational: \<open>2\<^sup>e \<le> \<bar>x\<bar> < 2\<^sup>e\<^sup>+\<^sup>1\<close>.\<close>

definition exponent :: "rat \<Rightarrow> int" where
  "exponent x =
     (let (p, q) = quotient_of \<bar>x\<bar>;
          e = log2_floor p - log2_floor q
      in if \<bar>x\<bar> < pow2 e then e - 1 else e)"

text \<open>Rounding to float64: 53 significant bits, that is a multiple of \<open>2\<^sup>e\<^sup>-\<^sup>5\<^sup>2\<close> for a
  value of exponent \<open>e\<close>, and a multiple of \<open>2\<^sup>-\<^sup>1\<^sup>0\<^sup>7\<^sup>4\<close> below the normal range.\<close>

definition fl64 :: "rat \<Rightarrow> rat" where
  "fl64 x =
     (if x = 0 then 0
      else let quantum = pow2 (max (exponent x) (- 1022) - 52)
           in of_int (rint (x / quantum)) * quantum)"

definition fadd :: "rat \<Rightarrow> rat \<Rightarrow> rat" where
  "fadd a b = fl64 (a + b)"

definition fsub :: "rat \<Rightarrow> rat \<Rightarrow> rat" where
  "fsub a b = fl64 (a - b)"

definition fmul :: "rat \<Rightarrow> rat \<Rightarrow> rat" where
  "fmul a b = fl64 (a * b)"

definition fdiv :: "rat \<Rightarrow> rat \<Rightarrow> rat" where
  "fdiv a b = fl64 (a / b)"

text \<open>The integer square root \<open>\<lfloor>\<surd>n\<rfloor>\<close>, two bits of \<open>n\<close> at a time, and the square root
  of float64: the significand is the integer square root of the scaled argument, moved to
  the nearer neighbour.\<close>

definition isqrt_step :: "int \<Rightarrow> int \<Rightarrow> int" where
  "isqrt_step n r = (if (2 * r + 1) * (2 * r + 1) \<le> n then 2 * r + 1 else 2 * r)"

function isqrt :: "int \<Rightarrow> int" where
  "isqrt n = (if n < 1 then 0 else isqrt_step n (isqrt (n div 4)))"
  by pat_completeness auto
termination
  by (relation "measure nat") auto

definition fsqrt :: "rat \<Rightarrow> rat" where
  "fsqrt x =
     (if x \<le> 0 then 0
      else let quantum = pow2 (exponent x div 2 - 52);
               y = x / (quantum * quantum);
               n = isqrt \<lfloor>y\<rfloor>;
               h = (of_int n + 1 / 2) * (of_int n + 1 / 2);
               m = (if y < h then n else if h < y then n + 1 else if even n then n else n + 1)
           in of_int m * quantum)"

text \<open>A mean of float64 values computed the plain way: the sum in the order of the
  entries, divided by their number. It stands for \<^verbatim>\<open>Series.mean()\<close> in the examples; the
  functions below take that method as a parameter, the order in which pandas sums a long
  column being the library's choice.\<close>

definition float_mean :: "rat list \<Rightarrow> rat" where
  "float_mean xs = fdiv (fold (\<lambda>x acc. fadd acc x) xs 0) (of_nat (length xs))"

subsection \<open>GridAdjacency (compute\_groupwise\_adjacency\_matrix, lines 87--121)\<close>

text \<open>The eight neighbour positions of lines 102--107, in the order written there.\<close>

definition neighbors :: "coord \<Rightarrow> coord list" where
  "neighbors p = (case p of (row, col) \<Rightarrow>
     [(row - 1, col), (row + 1, col),
      (row, col - 2), (row, col + 2),
      (row - 1, col - 1), (row + 1, col - 1),
      (row - 1, col + 1), (row + 1, col + 1)])"

text \<open>Lines 92--96: the dict comprehension over the sample's rows; a coordinate that occurs
  twice keeps its place and takes the later label.\<close>

definition spot_dict_of :: "('s, 'l, 'g) spot list \<Rightarrow> (coord \<times> 'l) list" where
  "spot_dict_of sample_spots =
     fold (\<lambda>s d. AList.update (array_row s, array_col s) (cluster s) d) sample_spots []"

text \<open>Lines 111--113: \<^verbatim>\<open>if nb_cl not in d: d[nb_cl] = 0; d[nb_cl] += 1\<close>.\<close>

definition inc_count :: "'l \<Rightarrow> ('l \<times> nat) list \<Rightarrow> ('l \<times> nat) list" where
  "inc_count nb_cl d =
     AList.update nb_cl (case map_of d nb_cl of None \<Rightarrow> 1 | Some n \<Rightarrow> n + 1) d"

text \<open>Lines 99--113 for one item of \<^verbatim>\<open>spot_dict\<close>: the row of \<^verbatim>\<open>cl\<close> is created empty when
  absent (lines 100--101), every neighbour position present in \<^verbatim>\<open>spot_dict\<close> is counted
  into it, and the row is stored under \<^verbatim>\<open>cl\<close>.\<close>

definition count_spot ::
  "(coord \<times> 'l) list \<Rightarrow> coord \<times> 'l \<Rightarrow> ('l \<times> ('l \<times> nat) list) list \<Rightarrow> ('l \<times> ('l \<times> nat) list) list"
where
  "count_spot spot_dict item adj_counts = (case item of (p, cl) \<Rightarrow>
     let row0 = (case map_of adj_counts cl of None \<Rightarrow> [] | Some r \<Rightarrow> r);
         row1 = fold (\<lambda>nb r. case map_of spot_dict nb of None \<Rightarrow> r | Some nb_cl \<Rightarrow> inc_count nb_cl r)
                  (neighbors p) row0
     in AList.update cl row1 adj_counts)"

definition adj_counts_of :: "(coord \<times> 'l) list \<Rightarrow> ('l \<times> ('l \<times> nat) list) list" where
  "adj_counts_of spot_dict = fold (count_spot spot_dict) spot_dict []"

text \<open>
  A data frame of the per-sample adjacency: its rows in index order, each with the cells
  that hold a value; a cell that is absent is NaN in pandas and reads as 0 after
  \<^verbatim>\<open>fillna(0)\<close>.

  Line 115, \<^verbatim>\<open>pd.DataFrame.from_dict(adj_counts, orient='index')\<close>: pandas transposes the
  nested dict cell by cell (\<^verbatim>\<open>new_data[col][index] = v\<close>), so an outer key whose inner dict
  is empty contributes no cell and is no row of the frame.
\<close>

type_synonym 'l frame = "('l \<times> ('l \<times> rat) list) list"

definition from_dict_index :: "('l \<times> ('l \<times> nat) list) list \<Rightarrow> 'l frame" where
  "from_dict_index adj_counts =
     map (\<lambda>(cl, d). (cl, map (\<lambda>(k, n). (k, of_nat n)) d)) (filter (\<lambda>(cl, d). d \<noteq> []) adj_counts)"

definition frame_index :: "'l frame \<Rightarrow> 'l list" where
  "frame_index df = map fst df"

definition frame_columns :: "'l frame \<Rightarrow> 'l list" where
  "frame_columns df = unique (concat (map (\<lambda>(cl, d). map fst d) df))"

text \<open>The value at row \<open>l1\<close>, column \<open>l2\<close> of \<^verbatim>\<open>df.fillna(0).reindex(..., fill_value=0)\<close>.\<close>

definition frame_loc :: "'l frame \<Rightarrow> 'l \<Rightarrow> 'l \<Rightarrow> rat" where
  "frame_loc df l1 l2 =
     (case map_of df l1 of None \<Rightarrow> 0
      | Some d \<Rightarrow> (case map_of d l2 of None \<Rightarrow> 0 | Some v \<Rightarrow> v))"

text \<open>Line 116, \<^verbatim>\<open>value_counts()\<close> read at one label: the number of table rows of the
  sample with that label.\<close>

definition leiden_count :: "('s, 'l, 'g) spot list \<Rightarrow> 'l \<Rightarrow> nat" where
  "leiden_count sample_spots cl = length (filter (\<lambda>s. cluster s = cl) sample_spots)"

text \<open>Lines 117--119: each row of the frame is divided by the count of its label when the
  label is among the counted ones; otherwise the row is left as it is.\<close>

definition normalize_rows :: "('s, 'l, 'g) spot list \<Rightarrow> 'l frame \<Rightarrow> 'l frame" where
  "normalize_rows sample_spots df =
     map (\<lambda>(cl, d).
            if leiden_count sample_spots cl > 0
            then (cl, map (\<lambda>(k, v). (k, v / of_nat (leiden_count sample_spots cl))) d)
            else (cl, d)) df"

text \<open>Lines 91--121 for one sample.\<close>

definition sample_adj :: "('s, 'l, 'g) spot list \<Rightarrow> 'l frame" where
  "sample_adj sample_spots =
     normalize_rows sample_spots (from_dict_index (adj_counts_of (spot_dict_of sample_spots)))"

definition spots_of_sample :: "('s, 'l, 'g) spot list \<Rightarrow> 's \<Rightarrow> ('s, 'l, 'g) spot list" where
  "spots_of_sample obs s = filter (\<lambda>r. sample_id r = s) obs"

text \<open>Lines 90--121: \<^verbatim>\<open>sample_adj_counts\<close>, one frame per sample in order of appearance.\<close>

definition sample_adj_counts :: "('s, 'l, 'g) spot list \<Rightarrow> ('s \<times> 'l frame) list" where
  "sample_adj_counts obs =
     map (\<lambda>s. (s, sample_adj (spots_of_sample obs s))) (unique (map sample_id obs))"

subsection \<open>PairwiseEnrichment (compute\_groupwise\_adjacency\_matrix, lines 124--208)\<close>

text \<open>Lines 124--125: the labels of the concatenated frame, columns united with the row
  labels, sorted.\<close>

definition all_leiden_classes_of :: "('s \<times> ('l::linorder) frame) list \<Rightarrow> 'l list" where
  "all_leiden_classes_of adjs =
     sort (remdups (concat (map (\<lambda>(s, df). frame_columns df @ frame_index df) adjs)))"

text \<open>Line 135 followed by \<^verbatim>\<open>.values\<close>: the frame on the unified labels, as a matrix.\<close>

definition reindex_values :: "'l list \<Rightarrow> 'l frame \<Rightarrow> rat list list" where
  "reindex_values all_classes df = map (\<lambda>l1. map (\<lambda>l2. frame_loc df l1 l2) all_classes) all_classes"

text \<open>Lines 130--138 for one group: the matrices of the group's samples. A sample with no
  row in the concatenated frame makes \<^verbatim>\<open>xs\<close> raise \<^verbatim>\<open>KeyError\<close> and is skipped.\<close>

definition group_matrices_of ::
  "('s, 'l, 'g) spot list \<Rightarrow> ('s \<times> 'l frame) list \<Rightarrow> 'l list \<Rightarrow> 'g \<Rightarrow> rat list list list"
where
  "group_matrices_of obs adjs all_classes g =
     concat (map (\<lambda>s. case map_of adjs s of
                         None \<Rightarrow> []
                       | Some df \<Rightarrow> if df = [] then [] else [reindex_values all_classes df])
                 (unique (map sample_id (filter (\<lambda>r. group_label r = g) obs))))"

text \<open>Lines 128--140: \<^verbatim>\<open>group_adj_matrices\<close>, a key only for a group with some matrix.\<close>

definition group_adj_matrices_of ::
  "('s, 'l, 'g) spot list \<Rightarrow> ('s \<times> 'l frame) list \<Rightarrow> 'l list \<Rightarrow> 'g list
     \<Rightarrow> ('g \<times> rat list list list) list"
where
  "group_adj_matrices_of obs adjs all_classes groups =
     fold (\<lambda>g d. let ms = group_matrices_of obs adjs all_classes g
                  in if ms \<noteq> [] then AList.update g ms d else d) groups []"

text \<open>Line 145, \<^verbatim>\<open>np.mean(..., axis=0)\<close>: the entrywise mean of the matrices.\<close>

definition mean_matrix :: "nat \<Rightarrow> rat list list list \<Rightarrow> rat list list" where
  "mean_matrix n ms = map (\<lambda>i. map (\<lambda>j. mean (map (\<lambda>m. m ! i ! j) ms)) [0..<n]) [0..<n]"

record 'l pair_stat =
  Leiden1 :: 'l
  Leiden2 :: 'l
  group1_mean :: rat
  group2_mean :: rat
  P_value :: rat
  FDR_corrected :: rat

text \<open>Lines 158--173: one entry per \<open>(l1, l2)\<close> of the double loop over
  \<^verbatim>\<open>all_leiden_classes\<close>, before the correction (the field \<open>FDR_corrected\<close> is filled in
  afterwards). \<open>mwu v1 v2\<close> stands for the p-value of
  \<^verbatim>\<open>mannwhitneyu(v1, v2, alternative='two-sided')\<close>.\<close>

definition pair_tests ::
  "(rat list \<Rightarrow> rat list \<Rightarrow> rat) \<Rightarrow> 'l list \<Rightarrow> rat list list list \<Rightarrow> rat list list list
     \<Rightarrow> 'l pair_stat list"
where
  "pair_tests mwu all_classes data1 data2 =
     concat (map (\<lambda>(i, l1). map (\<lambda>(j, l2).
         let v1 = map (\<lambda>m. m ! i ! j) data1;
             v2 = map (\<lambda>m. m ! i ! j) data2;
             p = (if np_any v1 \<and> np_any v2 then mwu v1 v2 else 1)
         in \<lparr>Leiden1 = l1, Leiden2 = l2, group1_mean = mean v1, group2_mean = mean v2,
              P_value = p, FDR_corrected = 0\<rparr>)
       (List.enumerate 0 all_classes)) (List.enumerate 0 all_classes))"

text \<open>Lines 175--184: \<open>fdr\<close> stands for the corrected p-values of
  \<^verbatim>\<open>multipletests(p_values, method='fdr_bh')\<close>; the data frame takes columns of one length
  only.\<close>

definition fdr_results_of ::
  "(rat list \<Rightarrow> rat list) \<Rightarrow> 'l pair_stat list \<Rightarrow> error + 'l pair_stat list"
where
  "fdr_results_of fdr tests =
     (let fdrs = fdr (map P_value tests)
      in if length fdrs \<noteq> length tests then Inl LengthMismatch
         else Inr (map (\<lambda>(r, q). r\<lparr>FDR_corrected := q\<rparr>) (zip tests fdrs)))"

text \<open>Lines 187--190.\<close>

definition fdr_filter :: "rat \<Rightarrow> 'l pair_stat list \<Rightarrow> 'l pair_stat list" where
  "fdr_filter P_thr fdr_results =
     filter (\<lambda>r. FDR_corrected r < P_thr \<and> Leiden1 r \<noteq> Leiden2 r) fdr_results"

text \<open>The column \<^verbatim>\<open>f"{g}_mean"\<close> of the table built at lines 177--184 (when both groups have
  the same name the later dict entry, \<^verbatim>\<open>group2_means\<close>, is the one kept).\<close>

definition mean_column :: "'g \<Rightarrow> 'g \<Rightarrow> 'g \<Rightarrow> 'l pair_stat \<Rightarrow> rat" where
  "mean_column group1 group2 g r = (if g = group2 then group2_mean r else group1_mean r)"

text \<open>Lines 200--203: the two comparisons on the rows of \<^verbatim>\<open>fdr_filtered\<close>. The product
  \<^verbatim>\<open>enrichment_fold * fdr_filtered[...]\<close> is a float64 product, and \<open>series_mean\<close> stands for
  \<^verbatim>\<open>Series.mean()\<close> of pandas, taken over the column of \<^verbatim>\<open>fdr_filtered\<close>. The values of the
  table are float64 values; comparing two of them is exact.\<close>

definition focus_filter ::
  "(rat list \<Rightarrow> rat) \<Rightarrow> rat \<Rightarrow> ('l pair_stat \<Rightarrow> rat) \<Rightarrow> ('l pair_stat \<Rightarrow> rat)
     \<Rightarrow> 'l pair_stat list \<Rightarrow> 'l pair_stat list"
where
  "focus_filter series_mean enrichment_fold focus_mean other_mean fdr_filtered =
     filter (\<lambda>r. focus_mean r > fmul enrichment_fold (other_mean r)
                \<and> focus_mean r > series_mean (map focus_mean fdr_filtered)) fdr_filtered"

text \<open>Lines 197--205. \<open>focus_group\<close> is \<open>None\<close> for Python's \<^verbatim>\<open>None\<close> (the default of the
  parameter), which is no member of a tuple of group names.\<close>

definition focus_step ::
  "(rat list \<Rightarrow> rat) \<Rightarrow> 'g \<Rightarrow> 'g \<Rightarrow> 'g option \<Rightarrow> rat \<Rightarrow> 'l pair_stat list
     \<Rightarrow> error + 'l pair_stat list"
where
  "focus_step series_mean group1 group2 focus_group enrichment_fold fdr_filtered =
     (case focus_group of
        None \<Rightarrow> Inl FocusGroupNotInGroups
      | Some fg \<Rightarrow>
          if fg \<in> set [group1, group2] then
            (case filter (\<lambda>g. g \<noteq> fg) [group1, group2] of
               [] \<Rightarrow> Inl IndexError
             | other_group # _ \<Rightarrow>
                 Inr (focus_filter series_mean enrichment_fold (mean_column group1 group2 fg)
                        (mean_column group1 group2 other_group) fdr_filtered))
          else Inl FocusGroupNotInGroups)"

text \<open>Lines 153--184, for exactly two groups: the table \<^verbatim>\<open>fdr_results\<close>.\<close>

definition fdr_results_table ::
  "(rat list \<Rightarrow> rat list \<Rightarrow> rat) \<Rightarrow> (rat list \<Rightarrow> rat list)
     \<Rightarrow> 'l list \<Rightarrow> ('g \<times> rat list list list) list \<Rightarrow> 'g \<Rightarrow> 'g \<Rightarrow> error + 'l pair_stat list"
where
  "fdr_results_table mwu fdr all_classes group_adj_matrices group1 group2 =
     (case map_of group_adj_matrices group1 of
        None \<Rightarrow> Inl KeyError
      | Some data1 \<Rightarrow>
     (case map_of group_adj_matrices group2 of
        None \<Rightarrow> Inl KeyError
      | Some data2 \<Rightarrow> fdr_results_of fdr (pair_tests mwu all_classes data1 data2)))"

text \<open>Lines 153--205, for exactly two groups.\<close>

definition two_group_test ::
  "(rat list \<Rightarrow> rat list \<Rightarrow> rat) \<Rightarrow> (rat list \<Rightarrow> rat list) \<Rightarrow> (rat list \<Rightarrow> rat)
     \<Rightarrow> 'l list \<Rightarrow> ('g \<times> rat list list list) list \<Rightarrow> 'g \<Rightarrow> 'g \<Rightarrow> 'g option \<Rightarrow> rat \<Rightarrow> rat
     \<Rightarrow> error + 'l pair_stat list"
where
  "two_group_test mwu fdr series_mean all_classes group_adj_matrices group1 group2 focus_group
       enrichment_fold P_thr =
     (case fdr_results_table mwu fdr all_classes group_adj_matrices group1 group2 of
        Inl e \<Rightarrow> Inl e
      | Inr fdr_results \<Rightarrow>
          focus_step series_mean group1 group2 focus_group enrichment_fold
            (fdr_filter P_thr fdr_results))"

text \<open>The whole function. The result is the pair \<^verbatim>\<open>(merged_df, focus_filtered)\<close>; the second
  component is \<open>None\<close> on the early return of line 151.\<close>

definition compute_groupwise_adjacency_matrix ::
  "(rat list \<Rightarrow> rat list \<Rightarrow> rat) \<Rightarrow> (rat list \<Rightarrow> rat list) \<Rightarrow> (rat list \<Rightarrow> rat)
     \<Rightarrow> ('s, 'l::linorder, 'g) spot list \<Rightarrow> 'g list \<Rightarrow> 'g option \<Rightarrow> rat \<Rightarrow> rat
     \<Rightarrow> error + (('g \<times> rat list list) list \<times> 'l pair_stat list option)"
where
  "compute_groupwise_adjacency_matrix mwu fdr series_mean obs groups focus_group enrichment_fold
       P_thr =
     (let adjs = sample_adj_counts obs in
      if adjs = [] then Inl NoObjectsToConcatenate
      else
        let all_classes = all_leiden_classes_of adjs;
            group_adj_matrices = group_adj_matrices_of obs adjs all_classes groups
        in if group_adj_matrices = [] then Inl NoObjectsToConcatenate
           else
             let merged_df = map (\<lambda>(g, ms). (g, mean_matrix (length all_classes) ms)) group_adj_matrices
             in (case groups of
                   [group1, group2] \<Rightarrow>
                     (case two_group_test mwu fdr series_mean all_classes group_adj_matrices
                             group1 group2 focus_group enrichment_fold P_thr of
                        Inl e \<Rightarrow> Inl e
                      | Inr focus_filtered \<Rightarrow> Inr (merged_df, Some focus_filtered))
                 | _ \<Rightarrow> Inr (merged_df, None)))"

subsection \<open>GeometricSignature (geometric\_signature, compare\_structures)\<close>

text \<open>
  A point of the plane and a row of the frame that \<open>geometric_signature\<close> receives: the
  columns \<^verbatim>\<open>name\<close>, \<^verbatim>\<open>x\<close>, \<^verbatim>\<open>y\<close> and \<^verbatim>\<open>label\<close>. Tuples are compared as Python compares them,
  first component first.
\<close>

type_synonym point = "real \<times> real"

record 'l node_row =
  node_name :: point
  node_x :: real
  node_y :: real
  node_label :: 'l

text \<open>Lines 505--509 (and 695--699): the frame of a list of nodes \<open>(coordinate, label)\<close>;
  the name of a node is its coordinate pair.\<close>

definition structure_frame :: "(point \<times> 'l) list \<Rightarrow> 'l node_row list" where
  "structure_frame nodes =
     map (\<lambda>(p, l). \<lparr>node_name = p, node_x = fst p, node_y = snd p, node_label = l\<rparr>) nodes"

text \<open>A node list with grid coordinates, read as points.\<close>

definition grid_nodes :: "(coord \<times> 'l) list \<Rightarrow> (point \<times> 'l) list" where
  "grid_nodes nodes = map (\<lambda>((r, c), l). ((of_int r, of_int c), l)) nodes"

text \<open>\<^verbatim>\<open>np.mean\<close> of a column and \<^verbatim>\<open>np.linalg.norm\<close> of a vector of the plane.\<close>

definition mean_real :: "real list \<Rightarrow> real" where
  "mean_real xs = sum_list xs / of_nat (length xs)"

definition norm2 :: "point \<Rightarrow> real" where
  "norm2 v = sqrt ((fst v)\<^sup>2 + (snd v)\<^sup>2)"

text \<open>Lines 297--300: the centred coordinates, one vector per row.\<close>

definition vectors_of :: "'l node_row list \<Rightarrow> point list" where
  "vectors_of rows =
     (let coordinates = map (\<lambda>r. (node_x r, node_y r)) rows;
          center = (mean_real (map fst coordinates), mean_real (map snd coordinates))
      in map (\<lambda>(a, b). (a - fst center, b - snd center)) coordinates)"

text \<open>Lines 300--316: the stacked distance matrix, one entry \<open>(From, To, Distance)\<close> per
  ordered pair of rows, row by row, of which the entries with \<^verbatim>\<open>From < To\<close> are kept.\<close>

definition distance_flat :: "'l node_row list \<Rightarrow> (point \<times> point \<times> real) list" where
  "distance_flat rows =
     (let named = zip rows (vectors_of rows)
      in filter (\<lambda>(f, t, d). f < t)
           (concat (map (\<lambda>(ri, vi). map (\<lambda>(rj, vj).
               (node_name ri, node_name rj, norm2 (fst vi - fst vj, snd vi - snd vj))) named) named)))"

text \<open>Line 322: the dict from names to labels; a name that occurs twice takes the later
  label.\<close>

definition labels_dict_of :: "'l node_row list \<Rightarrow> (point \<times> 'l) list" where
  "labels_dict_of rows = fold (\<lambda>r d. AList.update (node_name r) (node_label r) d) rows []"

text \<open>Line 323: the label pair of every entry; a name missing from the dict is Python's
  \<^verbatim>\<open>KeyError\<close>.\<close>

fun label_combinations ::
  "(point \<times> 'l) list \<Rightarrow> (point \<times> point \<times> real) list \<Rightarrow> error + ('l \<times> 'l) list"
where
  "label_combinations labels_dict [] = Inr []"
| "label_combinations labels_dict ((f, t, d) # rest) =
     (case map_of labels_dict f of
        None \<Rightarrow> Inl KeyError
      | Some lf \<Rightarrow>
     (case map_of labels_dict t of
        None \<Rightarrow> Inl KeyError
      | Some lt \<Rightarrow>
     (case label_combinations labels_dict rest of
        Inl e \<Rightarrow> Inl e
      | Inr ls \<Rightarrow> Inr ((lf, lt) # ls))))"

text \<open>The whole function: the entries sorted by distance (line 319; entries of equal
  distance stay in their order here, pandas leaves their order open) and their label
  pairs.\<close>

definition geometric_signature ::
  "'l node_row list \<Rightarrow> error + ((point \<times> point \<times> real) list \<times> ('l \<times> 'l) list)"
where
  "geometric_signature rows =
     (let sorted_distances = sort_key (\<lambda>(f, t, d). d) (distance_flat rows)
      in case label_combinations (labels_dict_of rows) sorted_distances of
           Inl e \<Rightarrow> Inl e
         | Inr sorted_label_combinations \<Rightarrow> Inr (sorted_distances, sorted_label_combinations))"

text \<open>\<^verbatim>\<open>np.round(d, decimals=6)\<close>: \<^verbatim>\<open>rint(d * 10**6) / 10**6\<close>, where \<^verbatim>\<open>rint\<close> rounds to the
  nearest integer and a tie to the even one.\<close>

definition rint_real :: "real \<Rightarrow> int" where
  "rint_real v =
     (let f = \<lfloor>v\<rfloor>; r = v - of_int f
      in if r < 1 / 2 then f else if 1 / 2 < r then f + 1 else if even f then f else f + 1)"

definition round6 :: "real \<Rightarrow> real" where
  "round6 d = of_int (rint_real (d * 10 ^ 6)) / 10 ^ 6"

text \<open>Lines 340--341: \<^verbatim>\<open>tuple(sorted(label))\<close> of a pair of labels.\<close>

definition normalize_label :: "('l::linorder) \<times> 'l \<Rightarrow> 'l \<times> 'l" where
  "normalize_label p = (min (fst p) (snd p), max (fst p) (snd p))"

text \<open>Lines 347--354: the \<^verbatim>\<open>defaultdict(list)\<close> from a rounded distance to the label pairs
  at that distance, in order.\<close>

definition group_by_distance :: "(real \<times> 'a) list \<Rightarrow> (real \<times> 'a list) list" where
  "group_by_distance entries =
     fold (\<lambda>(d, l) g. AList.update d ((case map_of g d of None \<Rightarrow> [] | Some ls \<Rightarrow> ls) @ [l]) g)
       entries []"

text \<open>The function, lines 328--367. \<open>sig1\<close> and \<open>sig2\<close> are the frames of sorted distances;
  the parameter \<^verbatim>\<open>tolerance\<close> is not used by the code.\<close>

definition compare_structures ::
  "(point \<times> point \<times> real) list \<Rightarrow> (point \<times> point \<times> real) list
     \<Rightarrow> (('l::linorder) \<times> 'l) list \<Rightarrow> ('l \<times> 'l) list \<Rightarrow> bool"
where
  "compare_structures sig1 sig2 labels1 labels2 =
     (let distances1 = map (\<lambda>(f, t, d). round6 d) sig1;
          distances2 = map (\<lambda>(f, t, d). round6 d) sig2
      in if length distances1 \<noteq> length distances2 then False
         else
           let group1 = group_by_distance (zip distances1 (map normalize_label labels1));
               group2 = group_by_distance (zip distances2 (map normalize_label labels2))
           in list_all (\<lambda>d. case map_of group2 d of
                               None \<Rightarrow> False
                             | Some ls2 \<Rightarrow>
                                 (case map_of group1 d of
                                    None \<Rightarrow> False
                                  | Some ls1 \<Rightarrow> sort ls1 = sort ls2))
                (sort (map fst group1)))"

subsection \<open>MotifGrouping (lines 502--526 and group\_structures\_by\_geometry)\<close>

text \<open>A signature as \<open>geometric_signature\<close> returns it, and the dict
  \<^verbatim>\<open>structure_signatures\<close> from the key of a motif to its signature (lines 502--511 and
  694--705). The motifs are the items of a dict, in its order; their nodes lie on the grid.\<close>

type_synonym 'l signature = "(point \<times> point \<times> real) list \<times> ('l \<times> 'l) list"

fun structure_signatures_of ::
  "('k \<times> (coord \<times> 'l) list) list \<Rightarrow> ('k \<times> 'l signature) list \<Rightarrow> error + ('k \<times> 'l signature) list"
where
  "structure_signatures_of [] signatures = Inr signatures"
| "structure_signatures_of ((key, nodes) # rest) signatures =
     (case geometric_signature (structure_frame (grid_nodes nodes)) of
        Inl e \<Rightarrow> Inl e
      | Inr sg \<Rightarrow> structure_signatures_of rest (AList.update key sg signatures))"

text \<open>Lines 516--521 (and 716--722): the id of the first group, in the order of the dict
  \<^verbatim>\<open>grouped_structures\<close>, whose first member has a signature that compares equal; \<open>None\<close>
  when there is none. \<^verbatim>\<open>items[0]\<close> of an empty list and a member without a signature are
  Python's \<^verbatim>\<open>IndexError\<close> and \<^verbatim>\<open>KeyError\<close>.\<close>

fun find_match ::
  "('k \<times> ('l::linorder) signature) list \<Rightarrow> 'l signature \<Rightarrow> (nat \<times> 'k list) list \<Rightarrow> error + nat option"
where
  "find_match signatures sg [] = Inr None"
| "find_match signatures sg ((gid, items) # groups) =
     (case items of
        [] \<Rightarrow> Inl IndexError
      | ref # _ \<Rightarrow>
          (case map_of signatures ref of
             None \<Rightarrow> Inl KeyError
           | Some ref_sg \<Rightarrow>
               if compare_structures (fst sg) (fst ref_sg) (snd sg) (snd ref_sg)
               then Inr (Some gid)
               else find_match signatures sg groups))"

text \<open>Lines 515--526 (and 713--730) for one motif: it joins the matched group, or founds
  a group whose id is the number of groups so far.\<close>

definition group_step ::
  "('k \<times> ('l::linorder) signature) list \<Rightarrow> 'k \<times> 'l signature \<Rightarrow> (nat \<times> 'k list) list
     \<Rightarrow> error + (nat \<times> 'k list) list"
where
  "group_step signatures item grouped_structures = (case item of (key, sg) \<Rightarrow>
     (case find_match signatures sg grouped_structures of
        Inl e \<Rightarrow> Inl e
      | Inr (Some matched) \<Rightarrow>
          Inr (AList.map_entry matched (\<lambda>items. items @ [key]) grouped_structures)
      | Inr None \<Rightarrow>
          Inr (AList.update (length grouped_structures) [key] grouped_structures)))"

fun group_loop ::
  "('k \<times> ('l::linorder) signature) list \<Rightarrow> ('k \<times> 'l signature) list \<Rightarrow> (nat \<times> 'k list) list
     \<Rightarrow> error + (nat \<times> 'k list) list"
where
  "group_loop signatures [] grouped_structures = Inr grouped_structures"
| "group_loop signatures (item # rest) grouped_structures =
     (case group_step signatures item grouped_structures of
        Inl e \<Rightarrow> Inl e
      | Inr grouped \<Rightarrow> group_loop signatures rest grouped)"

text \<open>Lines 502--526 of \<^verbatim>\<open>extract_and_group_3rd_structures_from_2nd_with_ratio\<close>: the
  grouping of the motifs, in the order of the dict of signatures.\<close>

definition group_by_signature ::
  "('k \<times> (coord \<times> ('l::linorder)) list) list \<Rightarrow> error + (nat \<times> 'k list) list"
where
  "group_by_signature motifs =
     (case structure_signatures_of motifs [] of
        Inl e \<Rightarrow> Inl e
      | Inr signatures \<Rightarrow> group_loop signatures signatures [])"

text \<open>\<open>group_by_label_sets\<close> (lines 680--687): the names of the structures under the
  \<^verbatim>\<open>frozenset\<close> of their labels.\<close>

definition group_by_label_sets :: "('k \<times> (coord \<times> 'l) list) list \<Rightarrow> ('l set \<times> 'k list) list" where
  "group_by_label_sets structures_dict =
     fold (\<lambda>(struct_name, nodes) label_groups.
             let label_set = set (map snd nodes)
             in AList.update label_set
                  ((case map_of label_groups label_set of None \<Rightarrow> [] | Some names \<Rightarrow> names) @ [struct_name])
                  label_groups)
       structures_dict []"

text \<open>Line 713, \<^verbatim>\<open>structure_signatures[struct_name]\<close>, for a list of names.\<close>

fun lookup_signatures :: "('k \<times> 'v) list \<Rightarrow> 'k list \<Rightarrow> error + ('k \<times> 'v) list" where
  "lookup_signatures signatures [] = Inr []"
| "lookup_signatures signatures (struct_name # rest) =
     (case map_of signatures struct_name of
        None \<Rightarrow> Inl KeyError
      | Some sg \<Rightarrow>
          (case lookup_signatures signatures rest of
             Inl e \<Rightarrow> Inl e
           | Inr items \<Rightarrow> Inr ((struct_name, sg) # items)))"

text \<open>\<open>group_structures_by_geometry\<close> (lines 689--732): the same grouping, the
  structures taken label set by label set.\<close>

definition group_structures_by_geometry ::
  "('k \<times> (coord \<times> ('l::linorder)) list) list \<Rightarrow> error + (nat \<times> 'k list) list"
where
  "group_structures_by_geometry structures_dict =
     (case structure_signatures_of structures_dict [] of
        Inl e \<Rightarrow> Inl e
      | Inr signatures \<Rightarrow>
          (case lookup_signatures signatures
                  (concat (map snd (group_by_label_sets structures_dict))) of
             Inl e \<Rightarrow> Inl e
           | Inr items \<Rightarrow> group_loop signatures items []))"

section \<open>Notions of the specification\<close>

text \<open>
  The interactions of a label \<open>l1\<close> in a sample: the ordered pairs \<open>(p, q)\<close> where \<open>p\<close> is
  a spot of \<open>items\<close> with label \<open>l1\<close> and \<open>q\<close> is one of the eight neighbour positions of
  \<open>p\<close> that holds a spot of the sample. The adjacencies from \<open>l1\<close> to \<open>l2\<close> are those whose
  second spot has label \<open>l2\<close>. (\<open>items\<close> is the part of the spot dict whose spots are
  counted; for the whole sample it is the spot dict itself.)
\<close>

definition interactions :: "(coord \<times> 'l) list \<Rightarrow> (coord \<times> 'l) list \<Rightarrow> 'l \<Rightarrow> (coord \<times> coord) list" where
  "interactions spot_dict items l1 =
     concat (map (\<lambda>(p, a). if a = l1
                              then map (Pair p) (filter (\<lambda>q. map_of spot_dict q \<noteq> None) (neighbors p))
                              else []) items)"

definition adjacencies ::
  "(coord \<times> 'l) list \<Rightarrow> (coord \<times> 'l) list \<Rightarrow> 'l \<Rightarrow> 'l \<Rightarrow> (coord \<times> coord) list"
where
  "adjacencies spot_dict items l1 l2 =
     filter (\<lambda>(p, q). map_of spot_dict q = Some l2) (interactions spot_dict items l1)"

text \<open>Reading a nested dict of counts, an absent key counting as 0.\<close>

definition cnt :: "('l \<times> nat) list \<Rightarrow> 'l \<Rightarrow> nat" where
  "cnt d k = (case map_of d k of None \<Rightarrow> 0 | Some n \<Rightarrow> n)"

definition cell :: "('l \<times> ('l \<times> nat) list) list \<Rightarrow> 'l \<Rightarrow> 'l \<Rightarrow> nat" where
  "cell adj l1 l2 = (case map_of adj l1 of None \<Rightarrow> 0 | Some d \<Rightarrow> cnt d l2)"





text \<open>The unified label list (line 125) and the table \<^verbatim>\<open>fdr_results\<close> (line 184) of a run of
  \<open>compute_groupwise_adjacency_matrix\<close> on the table \<open>obs\<close> with the groups
  \<open>(group1, group2)\<close>.\<close>

definition unified_labels :: "('s, 'l::linorder, 'g) spot list \<Rightarrow> 'l list" where
  "unified_labels obs = all_leiden_classes_of (sample_adj_counts obs)"




text \<open>
  The Euclidean distance of two points, and the canonical signature of a node list: the
  multiset, over the pairs of nodes (each unordered pair taken once, in the orientation
  \<^verbatim>\<open>From < To\<close> of the names), of rounded distance and order-normalised label pair.
\<close>

definition dist2 :: "point \<Rightarrow> point \<Rightarrow> real" where
  "dist2 p q = norm2 (fst p - fst q, snd p - snd q)"

definition node_pairs :: "(point \<times> 'l) list \<Rightarrow> ((point \<times> 'l) \<times> (point \<times> 'l)) list" where
  "node_pairs nodes = filter (\<lambda>(a, b). fst a < fst b) (List.product nodes nodes)"

definition pair_entry :: "(point \<times> ('l::linorder)) \<times> (point \<times> 'l) \<Rightarrow> real \<times> 'l \<times> 'l" where
  "pair_entry ab = (round6 (dist2 (fst (fst ab)) (fst (snd ab))),
                    normalize_label (snd (fst ab), snd (snd ab)))"

definition canonical_signature :: "(point \<times> ('l::linorder)) list \<Rightarrow> (real \<times> 'l \<times> 'l) multiset" where
  "canonical_signature nodes = image_mset pair_entry (mset (node_pairs nodes))"

text \<open>The entries that \<open>compare_structures\<close> compares, built from its four arguments:
  rounded distance and normalised label pair, position by position; and the label pairs at
  one rounded distance.\<close>

definition signature_entries ::
  "(point \<times> point \<times> real) list \<Rightarrow> (('l::linorder) \<times> 'l) list \<Rightarrow> (real \<times> 'l \<times> 'l) list"
where
  "signature_entries sig labels = zip (map (\<lambda>(f, t, d). round6 d) sig) (map normalize_label labels)"

definition bucket :: "(real \<times> 'a) list \<Rightarrow> real \<Rightarrow> 'a list" where
  "bucket entries d = map snd (filter (\<lambda>z. fst z = d) entries)"

text \<open>The pairs of a list, each unordered pair once, under a function of two arguments.\<close>

fun unordered_pairs :: "('a \<Rightarrow> 'a \<Rightarrow> 'b) \<Rightarrow> 'a list \<Rightarrow> 'b multiset" where
  "unordered_pairs g [] = {#}"
| "unordered_pairs g (x # xs) = image_mset (g x) (mset xs) + unordered_pairs g xs"





text \<open>The number of times a label occurs in a multiset of label pairs.\<close>

definition occurrences :: "'l \<Rightarrow> ('l \<times> 'l) multiset \<Rightarrow> nat" where
  "occurrences c M =
     sum_mset (image_mset (\<lambda>p. (if fst p = c then 1 else 0) + (if snd p = c then 1 else 0)) M)"

text \<open>The signature of a node list when it is computed, and the class of a signature:
  the multiset of its entries. The members of a class among items \<open>(key, signature)\<close>.\<close>

definition signature_or_empty :: "(coord \<times> 'l) list \<Rightarrow> 'l signature" where
  "signature_or_empty nodes =
     (case geometric_signature (structure_frame (grid_nodes nodes)) of
        Inl e \<Rightarrow> ([], [])
      | Inr sg \<Rightarrow> sg)"

definition signature_class :: "('l::linorder) signature \<Rightarrow> (real \<times> 'l \<times> 'l) multiset" where
  "signature_class sg = mset (signature_entries (fst sg) (snd sg))"

definition members :: "('k \<times> ('l::linorder) signature) list \<Rightarrow> (real \<times> 'l \<times> 'l) multiset \<Rightarrow> 'k list" where
  "members items cv = map fst (filter (\<lambda>item. signature_class (snd item) = cv) items)"

text \<open>The position, counted from \<open>n\<close>, of the first occurrence of a value in a list.\<close>

fun first_index :: "nat \<Rightarrow> 'a list \<Rightarrow> 'a \<Rightarrow> nat option" where
  "first_index n [] c = None"
| "first_index n (x # xs) c = (if c = x then Some n else first_index (Suc n) xs c)"

section \<open>Example inputs\<close>

text \<open>Small tables with natural numbers for sample names, cluster labels and group names.\<close>

definition mkspot :: "int \<Rightarrow> int \<Rightarrow> nat \<Rightarrow> nat \<Rightarrow> nat \<Rightarrow> (nat, nat, nat) spot" where
  "mkspot r c s l g = \<lparr>array_row = r, array_col = c, sample_id = s, cluster = l, group_label = g\<rparr>"

text \<open>Two samples: sample 1 in group 0 with spots \<open>0 1\<close> side by side and a lone spot of
  label 1; sample 2 in group 1 with spots \<open>0 1\<close> side by side and two lone spots of label 0.\<close>

definition obs_ab :: "(nat, nat, nat) spot list" where
  "obs_ab = [mkspot 0 0 1 0 0, mkspot 0 2 1 1 0, mkspot 5 5 1 1 0,
             mkspot 0 0 2 0 1, mkspot 0 2 2 1 1, mkspot 5 5 2 0 1, mkspot 9 9 2 0 1]"

text \<open>As before, with one more spot in sample 1: a lone spot of label 2.\<close>

definition obs_lone :: "(nat, nat, nat) spot list" where
  "obs_lone = [mkspot 0 0 1 0 0, mkspot 0 2 1 1 0, mkspot 5 5 1 2 0,
               mkspot 0 0 2 0 1, mkspot 0 2 2 1 1]"





definition third64 :: rat where
  "third64 = 6004799503160661 / 18014398509481984"




text \<open>Two motifs on the same two positions, with different labels.\<close>

definition motif_01 :: "(point \<times> nat) list" where
  "motif_01 = [((0, 0), 0), ((0, 2), 1)]"

definition motif_00 :: "(point \<times> nat) list" where
  "motif_00 = [((0, 0), 0), ((0, 2), 0)]"

(*DEFS-END*)

section \<open>Properties\<close>

subsection \<open>The example table, evaluated step by step\<close>

lemma obs_ab_sample_adj_counts:
  "sample_adj_counts obs_ab =
     [(1, [(0, [(1, 1)]), (1, [(0, 1 / 2)])]), (2, [(0, [(1, 1 / 3)]), (1, [(0, 1)])])]"
  by code_simp

lemma obs_ab_all_leiden_classes:
  "all_leiden_classes_of
     [(1::nat, [(0::nat, [(1, 1)]), (1, [(0, 1 / 2)])]), (2, [(0, [(1, 1 / 3)]), (1, [(0, 1)])])]
   = [0, 1]"
  by code_simp

lemma obs_ab_group_adj_matrices:
  "group_adj_matrices_of obs_ab
     [(1::nat, [(0::nat, [(1, 1)]), (1, [(0, 1 / 2)])]), (2, [(0, [(1, 1 / 3)]), (1, [(0, 1)])])]
     [0, 1] [0, 1]
   = [(0, [[[0, 1], [1 / 2, 0]]]), (1, [[[0, 1 / 3], [1, 0]]])]"
  by code_simp

lemma obs_ab_fdr_results:
  "fdr_results_table (\<lambda>v1 v2. 1 / 100) (\<lambda>ps. ps) [0::nat, 1]
     [(0::nat, [[[0, 1], [1 / 2, 0]]]), (1, [[[0, 1 / 3], [1, 0]]])] 0 1
   = Inr [\<lparr>Leiden1 = 0, Leiden2 = 0, group1_mean = 0, group2_mean = 0, P_value = 1, FDR_corrected = 1\<rparr>,
          \<lparr>Leiden1 = 0, Leiden2 = 1, group1_mean = 1, group2_mean = 1 / 3,
             P_value = 1 / 100, FDR_corrected = 1 / 100\<rparr>,
          \<lparr>Leiden1 = 1, Leiden2 = 0, group1_mean = 1 / 2, group2_mean = 1,
             P_value = 1 / 100, FDR_corrected = 1 / 100\<rparr>,
          \<lparr>Leiden1 = 1, Leiden2 = 1, group1_mean = 0, group2_mean = 0, P_value = 1, FDR_corrected = 1\<rparr>]"
  by code_simp

lemma obs_ab_two_group_test:
  "two_group_test (\<lambda>v1 v2. 1 / 100) (\<lambda>ps. ps) float_mean [0::nat, 1]
     [(0::nat, [[[0, 1], [1 / 2, 0]]]), (1, [[[0, 1 / 3], [1, 0]]])] 0 1 (Some 0) 2 (1 / 20)
   = Inr [\<lparr>Leiden1 = 0, Leiden2 = 1, group1_mean = 1, group2_mean = 1 / 3,
            P_value = 1 / 100, FDR_corrected = 1 / 100\<rparr>]"
  unfolding two_group_test_def obs_ab_fdr_results by code_simp

lemma obs_ab_compute:
  "compute_groupwise_adjacency_matrix (\<lambda>v1 v2. 1 / 100) (\<lambda>ps. ps) float_mean obs_ab [0, 1] (Some 0)
     2 (1 / 20)
   = Inr ([(0, [[0, 1], [1 / 2, 0]]), (1, [[0, 1 / 3], [1, 0]])],
          Some [\<lparr>Leiden1 = 0, Leiden2 = 1, group1_mean = 1, group2_mean = 1 / 3,
                  P_value = 1 / 100, FDR_corrected = 1 / 100\<rparr>])"
  unfolding compute_groupwise_adjacency_matrix_def Let_def obs_ab_sample_adj_counts
    obs_ab_all_leiden_classes obs_ab_group_adj_matrices obs_ab_two_group_test
  by code_simp

subsection \<open>The focus group\<close>

lemma compute_two_groups:
  "compute_groupwise_adjacency_matrix mwu fdr series_mean obs [group1, group2] focus_group
       enrichment_fold P_thr =
     (let adjs = sample_adj_counts obs in
      if adjs = [] then Inl NoObjectsToConcatenate
      else
        let all_classes = all_leiden_classes_of adjs;
            group_adj_matrices = group_adj_matrices_of obs adjs all_classes [group1, group2]
        in if group_adj_matrices = [] then Inl NoObjectsToConcatenate
           else (case two_group_test mwu fdr series_mean all_classes group_adj_matrices group1 group2
                             focus_group enrichment_fold P_thr of
                        Inl e \<Rightarrow> Inl e
                      | Inr focus_filtered \<Rightarrow>
                          Inr (map (\<lambda>(g, ms). (g, mean_matrix (length all_classes) ms)) group_adj_matrices,
                               Some focus_filtered)))"
  by (simp add: compute_groupwise_adjacency_matrix_def Let_def)

lemma two_group_test_None:
  "two_group_test mwu fdr series_mean all_classes gam group1 group2 None enrichment_fold P_thr =
     (case fdr_results_table mwu fdr all_classes gam group1 group2 of
        Inl e \<Rightarrow> Inl e | Inr t \<Rightarrow> Inl FocusGroupNotInGroups)"
  by (simp add: two_group_test_def focus_step_def split: sum.splits)

text \<open>With two groups and no focus group the function returns no result, whatever the
  table and the thresholds.\<close>

lemma focus_None_never_returns:
  "compute_groupwise_adjacency_matrix mwu fdr series_mean obs [group1, group2] None enrichment_fold
       P_thr
     \<noteq> Inr res"
proof -
  let ?all = "all_leiden_classes_of (sample_adj_counts obs)"
  let ?gam = "group_adj_matrices_of obs (sample_adj_counts obs) ?all [group1, group2]"
  have "two_group_test mwu fdr series_mean ?all ?gam group1 group2 None enrichment_fold P_thr \<noteq> Inr t"
    for t
    unfolding two_group_test_None
    by (cases "fdr_results_table mwu fdr ?all ?gam group1 group2") simp_all
  then show ?thesis
    unfolding compute_two_groups Let_def
    by (simp split: sum.split)
qed

text \<open>
  Claim C2. The claim says that the call fails exactly when a designated focus group is not
  one of the two groups, and that with no focus group (the default \<^verbatim>\<open>focus_group=None\<close>) it
  succeeds and returns the FDR-filtered table. The code tests \<^verbatim>\<open>focus_group in groups\<close> and
  raises otherwise, so the default itself raises: on the example table, with groups 0 and 1
  and no focus group, the result is the error of line 205.
\<close>

theorem focus_group_default_raises:
  "compute_groupwise_adjacency_matrix (\<lambda>v1 v2. 1 / 100) (\<lambda>ps. ps) series_mean obs_ab [0, 1] None 2
       (1 / 20)
     = Inl FocusGroupNotInGroups"
  unfolding compute_groupwise_adjacency_matrix_def Let_def obs_ab_sample_adj_counts
    obs_ab_all_leiden_classes obs_ab_group_adj_matrices two_group_test_None obs_ab_fdr_results
  by code_simp

subsection \<open>The focus filter\<close>

text \<open>The focus-filtered table that the function returns is the result of lines 187--205
  on its pair table.\<close>

lemma compute_focus_filtered:
  assumes "compute_groupwise_adjacency_matrix mwu fdr series_mean obs [group1, group2] focus_group
             enrichment_fold P_thr = Inr (merged_df, Some focus_filtered)"
  shows "\<exists>fdr_results.
           fdr_results_table mwu fdr (all_leiden_classes_of (sample_adj_counts obs))
               (group_adj_matrices_of obs (sample_adj_counts obs)
                  (all_leiden_classes_of (sample_adj_counts obs)) [group1, group2]) group1 group2
             = Inr fdr_results
         \<and> focus_step series_mean group1 group2 focus_group enrichment_fold
               (fdr_filter P_thr fdr_results) = Inr focus_filtered"
proof -
  let ?adjs = "sample_adj_counts obs"
  let ?all = "all_leiden_classes_of ?adjs"
  let ?gam = "group_adj_matrices_of obs ?adjs ?all [group1, group2]"
  from assms have "two_group_test mwu fdr series_mean ?all ?gam group1 group2 focus_group
      enrichment_fold P_thr = Inr focus_filtered"
    unfolding compute_two_groups Let_def by (simp split: if_splits sum.splits)
  then show ?thesis
    unfolding two_group_test_def by (simp split: sum.splits)
qed

lemma third64_nearest: "fl64 (1 / 3) = third64"
  unfolding third64_def by code_simp






section \<open>GridAdjacency: the normalised adjacency matrix\<close>

subsection \<open>Counting adjacencies\<close>

lemma cnt_Nil: "cnt [] k = 0"
  by (simp add: cnt_def)

lemma cell_Nil: "cell [] l1 l2 = 0"
  by (simp add: cell_def)

lemma cnt_inc_count: "cnt (inc_count k d) l2 = cnt d l2 + (if k = l2 then 1 else 0)"
  by (simp add: cnt_def inc_count_def update_conv' split: option.splits)

lemma cnt_fold_neighbors:
  "cnt (fold (\<lambda>nb r. case map_of sd nb of None \<Rightarrow> r | Some nb_cl \<Rightarrow> inc_count nb_cl r) nbs r) l2
     = cnt r l2 + length (filter (\<lambda>nb. map_of sd nb = Some l2) nbs)"
proof (induction nbs arbitrary: r)
  case Nil
  show ?case by simp
next
  case (Cons nb nbs)
  show ?case
    by (cases "map_of sd nb") (simp_all add: Cons.IH cnt_inc_count)
qed

lemma cell_count_spot:
  "cell (count_spot sd (p, cl) adj) l1 l2 =
     cell adj l1 l2 + (if cl = l1 then length (filter (\<lambda>q. map_of sd q = Some l2) (neighbors p)) else 0)"
proof (cases "cl = l1")
  case False
  then show ?thesis by (simp add: cell_def count_spot_def Let_def update_conv')
next
  case True
  then show ?thesis
    by (cases "map_of adj l1")
       (simp_all add: cell_def count_spot_def Let_def update_conv' cnt_fold_neighbors cnt_Nil)
qed

lemma interactions_Cons:
  "interactions sd ((p, a) # items) l1 =
     (if a = l1 then map (Pair p) (filter (\<lambda>q. map_of sd q \<noteq> None) (neighbors p)) else [])
     @ interactions sd items l1"
  by (simp add: interactions_def)

lemma filter_present_label:
  "filter (\<lambda>q. map_of sd q = Some l2) (filter (\<lambda>q. map_of sd q \<noteq> None) qs)
     = filter (\<lambda>q. map_of sd q = Some l2) qs"
  by (induction qs) auto

lemma length_adjacencies_Cons:
  "length (adjacencies sd ((p, a) # items) l1 l2) =
     (if a = l1 then length (filter (\<lambda>q. map_of sd q = Some l2) (neighbors p)) else 0)
     + length (adjacencies sd items l1 l2)"
proof -
  have "filter (\<lambda>(p, q). map_of sd q = Some l2) (map (Pair p) qs)
          = map (Pair p) (filter (\<lambda>q. map_of sd q = Some l2) qs)" for qs
    by (induction qs) auto
  moreover have "(\<lambda>x. (\<exists>y. map_of sd x = Some y) \<and> map_of sd x = Some l2) = (\<lambda>x. map_of sd x = Some l2)"
    by auto
  ultimately show ?thesis
    by (simp add: adjacencies_def interactions_Cons)
qed

lemma cell_fold_count_spot:
  "cell (fold (count_spot sd) items adj) l1 l2 = cell adj l1 l2 + length (adjacencies sd items l1 l2)"
proof (induction items arbitrary: adj)
  case Nil
  show ?case by (simp add: adjacencies_def interactions_def)
next
  case (Cons it items)
  obtain p cl where it: "it = (p, cl)" by (cases it)
  show ?case
    unfolding it by (simp add: Cons.IH cell_count_spot length_adjacencies_Cons)
qed

lemma cell_adj_counts_of: "cell (adj_counts_of sd) l1 l2 = length (adjacencies sd sd l1 l2)"
  by (simp add: adj_counts_of_def cell_fold_count_spot cell_Nil)

subsection \<open>Keys of the dicts\<close>

lemma distinct_fold_count_spot:
  "distinct (map fst adj) \<Longrightarrow> distinct (map fst (fold (count_spot sd) items adj))"
proof (induction items arbitrary: adj)
  case Nil
  then show ?case by simp
next
  case (Cons it items)
  obtain p cl where it: "it = (p, cl)" by (cases it)
  have "distinct (map fst (count_spot sd (p, cl) adj))"
    using Cons.prems by (simp add: count_spot_def Let_def distinct_update)
  then show ?case unfolding it by (simp add: Cons.IH)
qed

lemma distinct_adj_counts_of: "distinct (map fst (adj_counts_of sd))"
  by (simp add: adj_counts_of_def distinct_fold_count_spot)

lemma keys_fold_count_spot:
  "fst ` set (fold (count_spot sd) items adj) = fst ` set adj \<union> snd ` set items"
proof (induction items arbitrary: adj)
  case Nil
  show ?case by simp
next
  case (Cons it items)
  obtain p cl where it: "it = (p, cl)" by (cases it)
  have "fst ` set (count_spot sd (p, cl) adj) = insert cl (fst ` set adj)"
    by (simp add: count_spot_def Let_def dom_update)
  then show ?case unfolding it by (simp add: Cons.IH)
qed

lemma keys_adj_counts_of: "fst ` set (adj_counts_of sd) = snd ` set sd"
  by (simp add: adj_counts_of_def keys_fold_count_spot)

lemma set_update_subset: "set (AList.update k v d) \<subseteq> insert (k, v) (set d)"
  by (induction d) auto

lemma spot_dict_of_labels: "snd ` set (spot_dict_of ss) \<subseteq> cluster ` set ss"
proof -
  have "snd ` set (fold (\<lambda>s d. AList.update (array_row s, array_col s) (cluster s) d) ss d)
          \<subseteq> snd ` set d \<union> cluster ` set ss" for d
  proof (induction ss arbitrary: d)
    case Nil
    show ?case by simp
  next
    case (Cons s ss)
    have "snd ` set (AList.update (array_row s, array_col s) (cluster s) d)
                 \<subseteq> insert (cluster s) (snd ` set d)"
      using set_update_subset [of "(array_row s, array_col s)" "cluster s" d] by fastforce
    with Cons.IH [of "AList.update (array_row s, array_col s) (cluster s) d"]
    show ?case by auto
  qed
  from this [of "[]"] show ?thesis by (simp add: spot_dict_of_def)
qed

lemma leiden_count_pos_iff: "0 < leiden_count ss cl \<longleftrightarrow> cl \<in> cluster ` set ss"
  by (auto simp: leiden_count_def filter_empty_conv)

subsection \<open>Reading the normalised frame\<close>

lemma map_of_filter_distinct_keys:
  assumes keys: "distinct (map fst al)"
  shows "map_of (filter Q al) key =
           (case map_of al key of
              Some entry \<Rightarrow> (if Q (key, entry) then Some entry else None)
            | None \<Rightarrow> None)"
  using keys
proof (induction al)
  case Nil
  show ?case by simp
next
  case (Cons x al)
  obtain k' v' where x: "x = (k', v')" by (cases x)
  from Cons.prems have notin: "k' \<notin> fst ` set al" and d: "distinct (map fst al)"
    by (simp_all add: x)
  from notin have none: "map_of al k' = None"
    by (simp add: map_of_eq_None_iff)
  show ?case
  proof (cases "key = k'")
    case True
    with none have "map_of (filter Q al) key = None"
      using Cons.IH [OF d] by simp
    with True none show ?thesis by (simp add: x)
  next
    case False
    then show ?thesis using Cons.IH [OF d] by (simp add: x)
  qed
qed

lemma map_of_map_keyed:
  "map_of (map (\<lambda>(key, entry). (key, h key entry)) al) q = map_option (h q) (map_of al q)"
  by (induction al) auto

lemma map_of_from_dict_index:
  assumes "distinct (map fst adj)"
  shows "map_of (from_dict_index adj) l1 =
     (case map_of adj l1 of None \<Rightarrow> None
      | Some d \<Rightarrow> if d = [] then None else Some (map (\<lambda>(k, n). (k, of_nat n)) d))"
  unfolding from_dict_index_def
  by (simp add: map_of_map_keyed [where h = "\<lambda>k d. map (\<lambda>(k, n). (k, of_nat n)) d"]
                map_of_filter_distinct_keys [OF assms] split: option.splits)

lemma map_of_normalize_rows:
  "map_of (normalize_rows ss df) l1 =
     map_option (\<lambda>d. if leiden_count ss l1 > 0
                      then map (\<lambda>(k, v). (k, v / of_nat (leiden_count ss l1))) d else d)
       (map_of df l1)"
proof -
  have "normalize_rows ss df =
      map (\<lambda>(cl, d). (cl, if leiden_count ss cl > 0
                            then map (\<lambda>(k, v). (k, v / of_nat (leiden_count ss cl))) d else d)) df"
    unfolding normalize_rows_def by (rule map_cong) auto
  then show ?thesis
    by (simp add: map_of_map_keyed
          [where h = "\<lambda>cl d. if leiden_count ss cl > 0
                            then map (\<lambda>(k, v). (k, v / of_nat (leiden_count ss cl))) d else d"])
qed

lemma frame_loc_normalized:
  assumes "distinct (map fst adj)" and "0 < leiden_count ss l1"
  shows "frame_loc (normalize_rows ss (from_dict_index adj)) l1 l2
           = of_nat (cell adj l1 l2) / of_nat (leiden_count ss l1)"
proof (cases "map_of adj l1")
  case None
  then show ?thesis
    by (simp add: frame_loc_def map_of_normalize_rows map_of_from_dict_index [OF assms(1)] cell_def)
next
  case (Some d)
  show ?thesis
  proof (cases "d = []")
    case True
    with Some show ?thesis
      by (simp add: frame_loc_def map_of_normalize_rows map_of_from_dict_index [OF assms(1)]
                    cell_def cnt_Nil)
  next
    case False
    have "map_of (map (\<lambda>(k, v). (k, v / rat_of_nat (leiden_count ss l1)))
                   (map (\<lambda>(k, n). (k, rat_of_nat n)) d)) l2
            = map_option (\<lambda>n. rat_of_nat n / rat_of_nat (leiden_count ss l1)) (map_of d l2)"
      by (induction d) auto
    then have "(case map_of (map (\<lambda>(k, v). (k, v / rat_of_nat (leiden_count ss l1)))
                   (map (\<lambda>(k, n). (k, rat_of_nat n)) d)) l2 of None \<Rightarrow> 0 | Some v \<Rightarrow> v)
            = rat_of_nat (cnt d l2) / rat_of_nat (leiden_count ss l1)"
      by (cases "map_of d l2") (simp_all add: cnt_def)
    with Some False assms(2) show ?thesis
      by (simp add: frame_loc_def map_of_normalize_rows map_of_from_dict_index [OF assms(1)]
                    cell_def)
  qed
qed

lemma frame_loc_sample_adj:
  assumes "0 < leiden_count ss l1"
  shows "frame_loc (sample_adj ss) l1 l2
           = of_nat (length (adjacencies (spot_dict_of ss) (spot_dict_of ss) l1 l2))
               / of_nat (leiden_count ss l1)"
  unfolding sample_adj_def
  by (simp add: frame_loc_normalized [OF distinct_adj_counts_of assms] cell_adj_counts_of)

subsection \<open>Rows of the frame\<close>

lemma frame_index_normalize_rows: "frame_index (normalize_rows ss df) = frame_index df"
  by (simp add: frame_index_def normalize_rows_def comp_def case_prod_beta)

lemma frame_index_from_dict_index_subset:
  "set (frame_index (from_dict_index adj)) \<subseteq> fst ` set adj"
  by (force simp: frame_index_def from_dict_index_def)

lemma frame_index_sample_adj_counted:
  assumes "cl \<in> set (frame_index (sample_adj ss))"
  shows "0 < leiden_count ss cl"
proof -
  from assms have "cl \<in> set (frame_index (from_dict_index (adj_counts_of (spot_dict_of ss))))"
    by (simp add: sample_adj_def frame_index_normalize_rows)
  then have "cl \<in> fst ` set (adj_counts_of (spot_dict_of ss))"
    using frame_index_from_dict_index_subset by (rule rev_subsetD)
  then have "cl \<in> snd ` set (spot_dict_of ss)"
    by (simp only: keys_adj_counts_of)
  then have "cl \<in> cluster ` set ss"
    using spot_dict_of_labels by (rule rev_subsetD)
  then show ?thesis by (simp add: leiden_count_pos_iff)
qed

subsection \<open>Columns of the frame and row sums\<close>

lemma set_fold_unique:
  "set (fold (\<lambda>x acc. if x \<in> set acc then acc else acc @ [x]) xs acc) = set acc \<union> set xs"
  by (induction xs arbitrary: acc) auto

lemma distinct_fold_unique:
  "distinct acc \<Longrightarrow> distinct (fold (\<lambda>x acc. if x \<in> set acc then acc else acc @ [x]) xs acc)"
  by (induction xs arbitrary: acc) auto

lemma set_unique: "set (unique xs) = set xs"
  by (simp add: unique_def set_fold_unique)

lemma distinct_unique: "distinct (unique xs)"
  by (simp add: unique_def distinct_fold_unique)

lemma set_frame_columns: "set (frame_columns df) = (\<Union>(cl, d) \<in> set df. fst ` set d)"
  by (auto simp: frame_columns_def set_unique)

lemma keys_map_values: "fst ` (\<lambda>(k, v). (k, f v)) ` A = fst ` A"
  by (simp add: image_image case_prod_beta)

lemma inner_keys_normalize_rows:
  "(\<Union>(cl, d) \<in> set (normalize_rows ss df). fst ` set d) = (\<Union>(cl, d) \<in> set df. fst ` set d)"
proof (induction df)
  case Nil
  show ?case by (simp add: normalize_rows_def)
next
  case (Cons x df)
  obtain cl d where x: "x = (cl, d)" by (cases x)
  have step: "normalize_rows ss ((cl, d) # df) =
      (if leiden_count ss cl > 0
       then (cl, map (\<lambda>(k, v). (k, v / of_nat (leiden_count ss cl))) d)
       else (cl, d)) # normalize_rows ss df"
    by (simp add: normalize_rows_def)
  show ?case
    unfolding x step using Cons.IH by (simp add: keys_map_values)
qed

lemma set_frame_columns_normalize_rows:
  "set (frame_columns (normalize_rows ss df)) = set (frame_columns df)"
  by (simp only: set_frame_columns inner_keys_normalize_rows)

lemma inner_keys_from_dict_index:
  "(\<Union>(cl, d) \<in> set (from_dict_index adj). fst ` set d) = (\<Union>(cl, d) \<in> set adj. fst ` set d)"
proof (induction adj)
  case Nil
  show ?case by (simp add: from_dict_index_def)
next
  case (Cons x adj)
  obtain cl d where x: "x = (cl, d)" by (cases x)
  have step: "from_dict_index ((cl, d) # adj) =
      (if d \<noteq> [] then [(cl, map (\<lambda>(k, n). (k, of_nat n)) d)] else []) @ from_dict_index adj"
    by (simp add: from_dict_index_def)
  show ?case
    unfolding x step using Cons.IH by (simp add: keys_map_values)
qed

lemma set_frame_columns_sample_adj:
  "set (frame_columns (sample_adj ss))
     = (\<Union>(cl, d) \<in> set (adj_counts_of (spot_dict_of ss)). fst ` set d)"
  by (simp only: sample_adj_def set_frame_columns inner_keys_normalize_rows
        inner_keys_from_dict_index)

lemma cell_pos_inner_key:
  assumes "0 < cell adj l1 l2"
  shows "l2 \<in> (\<Union>(cl, d) \<in> set adj. fst ` set d)"
proof -
  from assms obtain d where d: "map_of adj l1 = Some d" and c: "0 < cnt d l2"
    by (cases "map_of adj l1") (simp_all add: cell_def)
  from c obtain n where "map_of d l2 = Some n"
    by (cases "map_of d l2") (simp_all add: cnt_def)
  then have "(l2, n) \<in> set d" by (rule map_of_SomeD)
  then have "l2 \<in> fst ` set d" by force
  moreover from d have "(l1, d) \<in> set adj" by (rule map_of_SomeD)
  ultimately show ?thesis by blast
qed

lemma sum_list_indicator:
  "distinct cols \<Longrightarrow> sum_list (map (\<lambda>l. if g = Some l then 1 else (0::nat)) cols)
     = (if \<exists>l \<in> set cols. g = Some l then 1 else 0)"
  by (induction cols) auto

lemma sum_length_filter_by_label:
  assumes "distinct cols" and "\<forall>x \<in> set xs. \<exists>l \<in> set cols. g x = Some l"
  shows "sum_list (map (\<lambda>l. length (filter (\<lambda>x. g x = Some l) xs)) cols) = length xs"
  using assms(2)
proof (induction xs)
  case Nil
  show ?case by simp
next
  case (Cons x xs)
  have "sum_list (map (\<lambda>l. length (filter (\<lambda>x. g x = Some l) (x # xs))) cols)
      = sum_list (map (\<lambda>l. (if g x = Some l then 1 else 0) + length (filter (\<lambda>x. g x = Some l) xs)) cols)"
    by (rule arg_cong [where f = sum_list], rule map_cong) simp_all
  also have "\<dots> = sum_list (map (\<lambda>l. if g x = Some l then 1 else 0) cols)
                   + sum_list (map (\<lambda>l. length (filter (\<lambda>x. g x = Some l) xs)) cols)"
    by (simp add: sum_list_addf)
  also have "\<dots> = 1 + length xs"
    using Cons by (simp add: sum_list_indicator [OF assms(1)])
  finally show ?case by simp
qed

lemma sum_list_of_nat_divide:
  "sum_list (map (\<lambda>l. rat_of_nat (f l) / c) cols) = rat_of_nat (sum_list (map f cols)) / c"
  by (induction cols) (simp_all add: add_divide_distrib)

lemma row_sum_sample_adj:
  assumes "0 < leiden_count ss l1"
  shows "sum_list (map (frame_loc (sample_adj ss) l1) (frame_columns (sample_adj ss)))
           = of_nat (length (interactions (spot_dict_of ss) (spot_dict_of ss) l1))
               / of_nat (leiden_count ss l1)"
proof -
  let ?sd = "spot_dict_of ss"
  let ?cols = "frame_columns (sample_adj ss)"
  let ?I = "interactions ?sd ?sd l1"
  have cover: "\<forall>x \<in> set ?I. \<exists>l \<in> set ?cols. (map_of ?sd \<circ> snd) x = Some l"
  proof
    fix x assume x: "x \<in> set ?I"
    obtain p q where pq: "x = (p, q)" by (cases x)
    from x have "map_of ?sd q \<noteq> None"
      by (auto simp: pq interactions_def split: if_splits)
    then obtain l where l: "map_of ?sd q = Some l" by auto
    with x have "x \<in> set (adjacencies ?sd ?sd l1 l)"
      by (simp add: adjacencies_def pq)
    then have "0 < length (adjacencies ?sd ?sd l1 l)"
      by (rule length_pos_if_in_set)
    then have "0 < cell (adj_counts_of ?sd) l1 l"
      by (simp only: cell_adj_counts_of)
    then have "l \<in> set ?cols"
      unfolding set_frame_columns_sample_adj by (rule cell_pos_inner_key)
    with l show "\<exists>l \<in> set ?cols. (map_of ?sd \<circ> snd) x = Some l"
      by (simp add: pq)
  qed
  have adj: "adjacencies ?sd ?sd l1 l = filter (\<lambda>x. (map_of ?sd \<circ> snd) x = Some l) ?I" for l
    unfolding adjacencies_def by (rule filter_cong) auto
  have "sum_list (map (frame_loc (sample_adj ss) l1) ?cols)
      = sum_list (map (\<lambda>l. rat_of_nat (length (adjacencies ?sd ?sd l1 l)) / of_nat (leiden_count ss l1)) ?cols)"
    by (rule arg_cong [where f = sum_list], rule map_cong)
       (simp_all add: frame_loc_sample_adj [OF assms])
  also have "\<dots> = rat_of_nat (sum_list (map (\<lambda>l. length (adjacencies ?sd ?sd l1 l)) ?cols))
                     / of_nat (leiden_count ss l1)"
    by (rule sum_list_of_nat_divide)
  also have "sum_list (map (\<lambda>l. length (adjacencies ?sd ?sd l1 l)) ?cols) = length ?I"
    unfolding adj
  proof (rule sum_length_filter_by_label)
    show "distinct ?cols" by (simp add: frame_columns_def distinct_unique)
    show "\<forall>x \<in> set ?I. \<exists>l \<in> set ?cols. (map_of ?sd \<circ> snd) x = Some l" by (rule cover)
  qed
  finally show ?thesis .
qed

text \<open>
  Claim C10. For a sample (the rows \<open>sample_spots\<close> of the table with one sample id) and a
  label \<open>l1\<close> borne by at least one of its spots:
  \<^item> the entry \<open>(l1, l2)\<close> of the sample's adjacency matrix is the number of adjacencies from
    spots of label \<open>l1\<close> to spots of label \<open>l2\<close> under the eight offsets, divided by the
    number of spots of label \<open>l1\<close> in the sample;
  \<^item> the sum of the row of \<open>l1\<close> over the columns of the matrix is the number of all
    interactions of \<open>l1\<close> divided by the number of spots of label \<open>l1\<close>;
  \<^item> the divisor is positive, and every row of the matrix, the only place of a division,
    belongs to a label with at least one spot: a label with no spot in the sample is no row
    and is never divided by. The model of lines 98--121 has no error branch.
\<close>

theorem adjacency_matrix_normalized:
  assumes "l1 \<in> cluster ` set sample_spots"
  shows "frame_loc (sample_adj sample_spots) l1 l2
           = of_nat (length (adjacencies (spot_dict_of sample_spots) (spot_dict_of sample_spots) l1 l2))
               / of_nat (leiden_count sample_spots l1)
       \<and> sum_list (map (frame_loc (sample_adj sample_spots) l1) (frame_columns (sample_adj sample_spots)))
           = of_nat (length (interactions (spot_dict_of sample_spots) (spot_dict_of sample_spots) l1))
               / of_nat (leiden_count sample_spots l1)
       \<and> 0 < leiden_count sample_spots l1
       \<and> (\<forall>cl \<in> set (frame_index (sample_adj sample_spots)). 0 < leiden_count sample_spots cl)"
proof -
  from assms have pos: "0 < leiden_count sample_spots l1"
    by (simp add: leiden_count_pos_iff)
  show ?thesis
  proof (intro conjI ballI)
    show "frame_loc (sample_adj sample_spots) l1 l2
           = of_nat (length (adjacencies (spot_dict_of sample_spots) (spot_dict_of sample_spots) l1 l2))
               / of_nat (leiden_count sample_spots l1)"
      by (rule frame_loc_sample_adj [OF pos])
    show "sum_list (map (frame_loc (sample_adj sample_spots) l1) (frame_columns (sample_adj sample_spots)))
           = of_nat (length (interactions (spot_dict_of sample_spots) (spot_dict_of sample_spots) l1))
               / of_nat (leiden_count sample_spots l1)"
      by (rule row_sum_sample_adj [OF pos])
    show "0 < leiden_count sample_spots l1" by (rule pos)
    show "0 < leiden_count sample_spots cl" if "cl \<in> set (frame_index (sample_adj sample_spots))" for cl
      using that by (rule frame_index_sample_adj_counted)
  qed
qed

lemma obs_ab_sample1: "spots_of_sample obs_ab 1 = [mkspot 0 0 1 0 0, mkspot 0 2 1 1 0, mkspot 5 5 1 1 0]"
  by code_simp

lemma obs_ab_sample1_values:
  "frame_loc (sample_adj [mkspot 0 0 1 0 0, mkspot 0 2 1 1 0, mkspot 5 5 1 1 0]) 1 0 = 1 / 2"
  "leiden_count [mkspot 0 0 1 0 0, mkspot 0 2 1 1 0, mkspot 5 5 1 1 0] 1 = 2"
  "adjacencies (spot_dict_of [mkspot 0 0 1 0 0, mkspot 0 2 1 1 0, mkspot 5 5 1 1 0])
     (spot_dict_of [mkspot 0 0 1 0 0, mkspot 0 2 1 1 0, mkspot 5 5 1 1 0]) 1 0 = [((0, 2), (0, 0))]"
  "interactions (spot_dict_of [mkspot 0 0 1 0 0, mkspot 0 2 1 1 0, mkspot 5 5 1 1 0])
     (spot_dict_of [mkspot 0 0 1 0 0, mkspot 0 2 1 1 0, mkspot 5 5 1 1 0]) 1 = [((0, 2), (0, 0))]"
  "frame_columns (sample_adj [mkspot 0 0 1 0 0, mkspot 0 2 1 1 0, mkspot 5 5 1 1 0]) = [1, 0]"
  by code_simp+

theorem adjacency_matrix_normalized_witness:
  "(1::nat) \<in> cluster ` set (spots_of_sample obs_ab 1)
   \<and> frame_loc (sample_adj (spots_of_sample obs_ab 1)) 1 0 = 1 / 2
   \<and> length (adjacencies (spot_dict_of (spots_of_sample obs_ab 1))
               (spot_dict_of (spots_of_sample obs_ab 1)) 1 (0::nat)) = 1
   \<and> leiden_count (spots_of_sample obs_ab 1) 1 = 2
   \<and> sum_list (map (frame_loc (sample_adj (spots_of_sample obs_ab 1)) 1)
                 (frame_columns (sample_adj (spots_of_sample obs_ab 1)))) = 1 / 2"
proof -
  have h: "(1::nat) \<in> cluster ` set (spots_of_sample obs_ab 1)"
    unfolding obs_ab_sample1 by (simp add: mkspot_def)
  from adjacency_matrix_normalized [OF h, of 0] h show ?thesis
    unfolding obs_ab_sample1 obs_ab_sample1_values by simp
qed

section \<open>PairwiseEnrichment: the table of label pairs\<close>

subsection \<open>The labels of a frame\<close>



















lemma sorted_all_leiden_classes: "sorted (all_leiden_classes_of adjs)"
  by (simp add: all_leiden_classes_of_def)

subsection \<open>The rows of the table\<close>







subsection \<open>The table on the example inputs\<close>


lemma obs_lone_sample_adj_counts:
  "sample_adj_counts obs_lone =
     [(1, [(0, [(1, 1)]), (1, [(0, 1)])]), (2, [(0, [(1, 1)]), (1, [(0, 1)])])]"
  by code_simp

lemma obs_lone_all_leiden_classes:
  "all_leiden_classes_of
     [(1::nat, [(0::nat, [(1, 1)]), (1, [(0, 1)])]), (2, [(0, [(1, 1)]), (1, [(0, 1)])])]
   = [0, 1]"
  by code_simp

lemma obs_lone_unified_labels: "unified_labels obs_lone = [0, 1]"
  unfolding unified_labels_def obs_lone_sample_adj_counts by (rule obs_lone_all_leiden_classes)















subsection \<open>Claim C8\<close>





section \<open>GeometricSignature: comparing signatures\<close>

subsection \<open>The buckets of compare\_structures\<close>

lemma map_of_fold_group:
  "map_of (fold (\<lambda>(d, l) g. AList.update d ((case map_of g d of None \<Rightarrow> [] | Some ls \<Rightarrow> ls) @ [l]) g)
             entries g) d
     = (case map_of g d of
          None \<Rightarrow> if d \<in> fst ` set entries then Some (bucket entries d) else None
        | Some ls \<Rightarrow> Some (ls @ bucket entries d))"
proof (induction entries arbitrary: g)
  case Nil
  show ?case by (simp add: bucket_def split: option.splits)
next
  case (Cons z entries)
  obtain d' l where z: "z = (d', l)" by (cases z)
  show ?case
    unfolding z
    by (simp add: Cons.IH update_conv' bucket_def split: option.splits)
qed

lemma map_of_group_by_distance:
  "map_of (group_by_distance entries) d
     = (if d \<in> fst ` set entries then Some (bucket entries d) else None)"
  by (simp add: group_by_distance_def map_of_fold_group)

lemma keys_group_by_distance: "fst ` set (group_by_distance entries) = fst ` set entries"
proof -
  have "fst ` set (group_by_distance entries) = dom (map_of (group_by_distance entries))"
    by (simp add: dom_map_of_conv_image_fst)
  also have "\<dots> = fst ` set entries"
    by (auto simp: dom_def map_of_group_by_distance)
  finally show ?thesis .
qed

lemma sort_eq_iff_mset: "sort xs = sort ys \<longleftrightarrow> mset xs = mset ys"
proof
  assume "sort xs = sort ys"
  then have "mset (sort xs) = mset (sort ys)" by simp
  then show "mset xs = mset ys" by simp
next
  assume "mset xs = mset ys"
  then have "mset (sort ys) = mset xs" by simp
  then show "sort xs = sort ys"
    by (rule properties_for_sort) simp
qed

lemma count_bucket: "count (mset (bucket entries d)) l = count (mset entries) (d, l)"
  by (induction entries) (auto simp: bucket_def)

lemma buckets_eq_iff_mset:
  assumes "length zs1 = length zs2"
  shows "(\<forall>d \<in> fst ` set zs1. d \<in> fst ` set zs2 \<and> mset (bucket zs1 d) = mset (bucket zs2 d))
           \<longleftrightarrow> mset zs1 = mset zs2"
proof
  assume eq: "mset zs1 = mset zs2"
  then have "set zs1 = set zs2" by (rule mset_eq_setD)
  moreover have "mset (bucket zs1 d) = mset (bucket zs2 d)" for d
    by (rule multiset_eqI) (simp add: count_bucket eq)
  ultimately show "\<forall>d \<in> fst ` set zs1. d \<in> fst ` set zs2 \<and> mset (bucket zs1 d) = mset (bucket zs2 d)"
    by simp
next
  assume b: "\<forall>d \<in> fst ` set zs1. d \<in> fst ` set zs2 \<and> mset (bucket zs1 d) = mset (bucket zs2 d)"
  have "count (mset zs1) z \<le> count (mset zs2) z" for z
  proof (cases "fst z \<in> fst ` set zs1")
    case True
    with b have "mset (bucket zs1 (fst z)) = mset (bucket zs2 (fst z))" by blast
    then have "count (mset (bucket zs1 (fst z))) (snd z) = count (mset (bucket zs2 (fst z))) (snd z)"
      by simp
    then show ?thesis by (simp add: count_bucket)
  next
    case False
    then have "z \<notin> set zs1" by force
    then have "count (mset zs1) z = 0"
      unfolding count_eq_zero_iff by simp
    then show ?thesis by linarith
  qed
  then have sub: "mset zs1 \<subseteq># mset zs2" by (rule mset_subset_eqI)
  have "size (mset zs1) = size (mset zs2)" using assms by simp
  with sub show "mset zs1 = mset zs2"
    using mset_subset_size [of "mset zs1" "mset zs2"] by (auto simp: subset_mset.less_le)
qed

lemma compare_structures_alt:
  "compare_structures sig1 sig2 labels1 labels2 =
     (if length sig1 \<noteq> length sig2 then False
      else list_all (\<lambda>d. case map_of (group_by_distance (signature_entries sig2 labels2)) d of
                               None \<Rightarrow> False
                             | Some ls2 \<Rightarrow>
                                 (case map_of (group_by_distance (signature_entries sig1 labels1)) d of
                                    None \<Rightarrow> False
                                  | Some ls1 \<Rightarrow> sort ls1 = sort ls2))
                (sort (map fst (group_by_distance (signature_entries sig1 labels1)))))"
  unfolding compare_structures_def Let_def signature_entries_def by simp

lemma compare_structures_iff:
  assumes "length labels1 = length sig1" and "length labels2 = length sig2"
  shows "compare_structures sig1 sig2 labels1 labels2
           \<longleftrightarrow> mset (signature_entries sig1 labels1) = mset (signature_entries sig2 labels2)"
proof (cases "length sig1 = length sig2")
  case False
  have "size (mset (signature_entries sig1 labels1)) = length sig1"
       "size (mset (signature_entries sig2 labels2)) = length sig2"
    using assms by (simp_all add: signature_entries_def)
  with False have "mset (signature_entries sig1 labels1) \<noteq> mset (signature_entries sig2 labels2)"
    by metis
  moreover from False have "\<not> compare_structures sig1 sig2 labels1 labels2"
    by (simp add: compare_structures_def)
  ultimately show ?thesis by simp
next
  case True
  let ?z1 = "signature_entries sig1 labels1"
  let ?z2 = "signature_entries sig2 labels2"
  have len: "length ?z1 = length ?z2"
    using assms True by (simp add: signature_entries_def)
  have keys: "set (sort (map fst (group_by_distance ?z1))) = fst ` set ?z1"
    by (simp add: keys_group_by_distance)
  have inner: "(case map_of (group_by_distance ?z2) d of
                  None \<Rightarrow> False
                | Some ls2 \<Rightarrow>
                    (case map_of (group_by_distance ?z1) d of
                       None \<Rightarrow> False
                     | Some ls1 \<Rightarrow> sort ls1 = sort ls2))
             \<longleftrightarrow> d \<in> fst ` set ?z2 \<and> sort (bucket ?z1 d) = sort (bucket ?z2 d)"
    if "d \<in> fst ` set ?z1" for d
    using that by (simp add: map_of_group_by_distance)
  have "compare_structures sig1 sig2 labels1 labels2
      \<longleftrightarrow> (\<forall>d \<in> fst ` set ?z1. d \<in> fst ` set ?z2 \<and> sort (bucket ?z1 d) = sort (bucket ?z2 d))"
    unfolding compare_structures_alt list_all_iff keys using True inner by simp
  also have "\<dots> \<longleftrightarrow> (\<forall>d \<in> fst ` set ?z1. d \<in> fst ` set ?z2 \<and> mset (bucket ?z1 d) = mset (bucket ?z2 d))"
    by (simp only: sort_eq_iff_mset)
  also have "\<dots> \<longleftrightarrow> mset ?z1 = mset ?z2"
    by (rule buckets_eq_iff_mset [OF len])
  finally show ?thesis .
qed

subsection \<open>The signature of a node list\<close>

lemma vectors_of_structure_frame:
  "vectors_of (structure_frame nodes) =
     map (\<lambda>(p, l). (fst p - mean_real (map (fst \<circ> fst) nodes), snd p - mean_real (map (snd \<circ> fst) nodes)))
       nodes"
  by (simp add: vectors_of_def structure_frame_def Let_def comp_def case_prod_beta)

lemma distance_flat_structure_frame:
  "distance_flat (structure_frame nodes)
     = map (\<lambda>(a, b). (fst a, fst b, dist2 (fst a) (fst b))) (node_pairs nodes)"
proof -
  let ?cx = "mean_real (map (fst \<circ> fst) nodes)"
  let ?cy = "mean_real (map (snd \<circ> fst) nodes)"
  let ?row = "\<lambda>a. (\<lparr>node_name = fst a, node_x = fst (fst a), node_y = snd (fst a), node_label = snd a\<rparr>,
                    (fst (fst a) - ?cx, snd (fst a) - ?cy))"
  have named: "zip (structure_frame nodes) (vectors_of (structure_frame nodes)) = map ?row nodes"
    unfolding vectors_of_structure_frame
    unfolding structure_frame_def
    by (simp add: zip_map_map zip_same_conv_map case_prod_beta)
  have "concat (map (\<lambda>(ri, vi). map (\<lambda>(rj, vj).
               (node_name ri, node_name rj, norm2 (fst vi - fst vj, snd vi - snd vj))) (map ?row nodes))
          (map ?row nodes))
      = map (\<lambda>(a, b). (fst a, fst b, dist2 (fst a) (fst b))) (List.product nodes nodes)"
    by (simp add: product_concat_map map_concat comp_def case_prod_unfold dist2_def)
  then show ?thesis
    unfolding distance_flat_def Let_def named node_pairs_def
    by (simp add: filter_map comp_def case_prod_unfold)
qed

lemma insort_key_map:
  "insort_key k (e x) (map e xs) = map e (insort_key (\<lambda>a. k (e a)) x xs)"
  by (induction xs) simp_all

lemma sort_key_map: "sort_key k (map e xs) = map e (sort_key (\<lambda>a. k (e a)) xs)"
  by (induction xs) (simp_all add: insort_key_map)

lemma map_of_fold_update:
  "map_of (fold (\<lambda>r d. AList.update (k r) (v r) d) rows d) key
     = (case map_of (rev (map (\<lambda>r. (k r, v r)) rows)) key of
          None \<Rightarrow> map_of d key
        | Some l \<Rightarrow> Some l)"
proof (induction rows arbitrary: d)
  case Nil
  show ?case by simp
next
  case (Cons r rows)
  show ?case
    by (simp add: Cons.IH update_conv' map_add_def split: option.splits)
qed

lemma map_of_rev_distinct: "distinct (map fst xs) \<Longrightarrow> map_of (rev xs) = map_of xs"
proof (induction xs)
  case Nil
  show ?case by simp
next
  case (Cons x xs)
  obtain k v where x: "x = (k, v)" by (cases x)
  from Cons.prems have notin: "k \<notin> fst ` set xs" and d: "distinct (map fst xs)"
    by (simp_all add: x)
  from notin have none: "map_of xs k = None" by (simp add: map_of_eq_None_iff)
  have "map_of (rev (x # xs)) = map_of [(k, v)] ++ map_of (rev xs)"
    by (simp add: x map_add_def fun_eq_iff split: option.splits)
  also have "\<dots> = map_of [(k, v)] ++ map_of xs"
    by (simp only: Cons.IH [OF d])
  also have "\<dots> = map_of (x # xs)"
    using none by (auto simp: x map_add_def fun_eq_iff split: option.splits)
  finally show ?case .
qed

lemma labels_dict_lookup:
  assumes "distinct (map fst nodes)" and "(p, l) \<in> set nodes"
  shows "map_of (labels_dict_of (structure_frame nodes)) p = Some l"
proof -
  have kv: "map (\<lambda>r. (node_name r, node_label r)) (structure_frame nodes) = nodes"
    by (simp add: structure_frame_def comp_def case_prod_beta)
  from assms have "map_of nodes p = Some l" by simp
  then show ?thesis
    unfolding labels_dict_of_def map_of_fold_update kv
    by (simp add: map_of_rev_distinct [OF assms(1)])
qed

lemma label_combinations_pairs:
  assumes "\<forall>ab \<in> set ps. map_of d (fst (fst ab)) = Some (snd (fst ab))
                        \<and> map_of d (fst (snd ab)) = Some (snd (snd ab))"
  shows "label_combinations d (map (\<lambda>ab. (fst (fst ab), fst (snd ab), w ab)) ps)
           = Inr (map (\<lambda>ab. (snd (fst ab), snd (snd ab))) ps)"
  using assms by (induction ps) simp_all

lemma distance_flat_entries:
  "distance_flat (structure_frame nodes)
     = map (\<lambda>ab. (fst (fst ab), fst (snd ab), dist2 (fst (fst ab)) (fst (snd ab)))) (node_pairs nodes)"
  unfolding distance_flat_structure_frame by (simp add: case_prod_unfold)

lemma sorted_distances_entries:
  "sort_key (\<lambda>(f, t, d). d) (distance_flat (structure_frame nodes))
     = map (\<lambda>ab. (fst (fst ab), fst (snd ab), dist2 (fst (fst ab)) (fst (snd ab))))
         (sort_key (\<lambda>ab. dist2 (fst (fst ab)) (fst (snd ab))) (node_pairs nodes))"
  unfolding distance_flat_entries sort_key_map by simp

lemma labels_of_sorted_pairs:
  assumes "distinct (map fst nodes)"
    and "ab \<in> set (sort_key (\<lambda>ab. dist2 (fst (fst ab)) (fst (snd ab))) (node_pairs nodes))"
  shows "map_of (labels_dict_of (structure_frame nodes)) (fst (fst ab)) = Some (snd (fst ab))
       \<and> map_of (labels_dict_of (structure_frame nodes)) (fst (snd ab)) = Some (snd (snd ab))"
proof -
  from assms(2) have "ab \<in> set nodes \<times> set nodes" by (simp add: node_pairs_def)
  then have "(fst (fst ab), snd (fst ab)) \<in> set nodes" and "(fst (snd ab), snd (snd ab)) \<in> set nodes"
    by (simp_all add: mem_Times_iff)
  then show ?thesis
    by (simp add: labels_dict_lookup [OF assms(1)])
qed

lemma geometric_signature_nodes:
  assumes "distinct (map fst nodes)"
  shows "\<exists>ps. mset ps = mset (node_pairs nodes)
           \<and> geometric_signature (structure_frame nodes)
               = Inr (map (\<lambda>ab. (fst (fst ab), fst (snd ab), dist2 (fst (fst ab)) (fst (snd ab)))) ps,
                      map (\<lambda>ab. (snd (fst ab), snd (snd ab))) ps)"
proof -
  define ps where "ps = sort_key (\<lambda>ab. dist2 (fst (fst ab)) (fst (snd ab))) (node_pairs nodes)"
  have "\<forall>ab \<in> set ps. map_of (labels_dict_of (structure_frame nodes)) (fst (fst ab)) = Some (snd (fst ab))
                        \<and> map_of (labels_dict_of (structure_frame nodes)) (fst (snd ab)) = Some (snd (snd ab))"
    unfolding ps_def using labels_of_sorted_pairs [OF assms] by (rule ballI)
  then have lc: "label_combinations (labels_dict_of (structure_frame nodes))
             (map (\<lambda>ab. (fst (fst ab), fst (snd ab), dist2 (fst (fst ab)) (fst (snd ab)))) ps)
           = Inr (map (\<lambda>ab. (snd (fst ab), snd (snd ab))) ps)"
    by (rule label_combinations_pairs)
  have gs: "geometric_signature (structure_frame nodes)
               = Inr (map (\<lambda>ab. (fst (fst ab), fst (snd ab), dist2 (fst (fst ab)) (fst (snd ab)))) ps,
                      map (\<lambda>ab. (snd (fst ab), snd (snd ab))) ps)"
    unfolding geometric_signature_def Let_def sorted_distances_entries ps_def [symmetric] lc by simp
  have m: "mset ps = mset (node_pairs nodes)" by (simp add: ps_def)
  show ?thesis
    apply (rule exI [of _ ps])
    apply (rule conjI [OF m])
    apply (rule gs)
    done
qed

lemma signature_entries_pairs:
  "signature_entries (map (\<lambda>ab. (fst (fst ab), fst (snd ab), dist2 (fst (fst ab)) (fst (snd ab)))) ps)
                     (map (\<lambda>ab. (snd (fst ab), snd (snd ab))) ps)
     = map pair_entry ps"
  by (simp add: signature_entries_def zip_map_map zip_same_conv_map pair_entry_def comp_def)

text \<open>The signature of a list of nodes with pairwise distinct coordinates is computed
  without error, its two components have one length, and its entries are, as a multiset,
  the canonical signature.\<close>

lemma geometric_signature_canonical:
  assumes "distinct (map fst nodes)"
  shows "\<exists>sig labels. geometric_signature (structure_frame nodes) = Inr (sig, labels)
           \<and> length labels = length sig
           \<and> mset (signature_entries sig labels) = canonical_signature nodes"
proof -
  from geometric_signature_nodes [OF assms] obtain ps where
    ps: "mset ps = mset (node_pairs nodes)" and
    gs: "geometric_signature (structure_frame nodes)
               = Inr (map (\<lambda>ab. (fst (fst ab), fst (snd ab), dist2 (fst (fst ab)) (fst (snd ab)))) ps,
                      map (\<lambda>ab. (snd (fst ab), snd (snd ab))) ps)"
    by blast
  have "mset (map pair_entry ps) = canonical_signature nodes"
    unfolding canonical_signature_def ps [symmetric] by simp
  with gs show ?thesis
    by (intro exI conjI) (assumption, simp, simp only: signature_entries_pairs)
qed

subsection \<open>The canonical signature\<close>

lemma compare_structures_canonical:
  assumes "distinct (map fst xs)" and "distinct (map fst ys)"
    and "geometric_signature (structure_frame xs) = Inr (sig1, labels1)"
    and "geometric_signature (structure_frame ys) = Inr (sig2, labels2)"
  shows "compare_structures sig1 sig2 labels1 labels2
           \<longleftrightarrow> canonical_signature xs = canonical_signature ys"
proof -
  from geometric_signature_canonical [OF assms(1)] assms(3)
  have 1: "length labels1 = length sig1" "mset (signature_entries sig1 labels1) = canonical_signature xs"
    by auto
  from geometric_signature_canonical [OF assms(2)] assms(4)
  have 2: "length labels2 = length sig2" "mset (signature_entries sig2 labels2) = canonical_signature ys"
    by auto
  show ?thesis
    unfolding compare_structures_iff [OF 1(1) 2(1)] 1(2) 2(2) ..
qed

lemma dist2_commute: "dist2 p q = dist2 q p"
  by (simp add: dist2_def norm2_def power2_commute)

lemma normalize_label_commute: "normalize_label (l, m) = normalize_label (m, l)"
  by (simp add: normalize_label_def min.commute max.commute)

lemma pair_entry_commute: "pair_entry (a, b) = pair_entry (b, a)"
  by (simp add: pair_entry_def dist2_commute [of "fst a"] normalize_label_commute [of "snd a"])




lemma mset_product_snoc_right:
  "mset (List.product xs (y # ys)) = image_mset (\<lambda>a. (a, y)) (mset xs) + mset (List.product xs ys)"
  by (induction xs) simp_all

lemma oriented_pairs_unordered:
  fixes k :: "'a \<Rightarrow> 'k::linorder"
  assumes "distinct (map k xs)" and "\<And>a b. g (a, b) = g (b, a)"
  shows "image_mset g (filter_mset (\<lambda>(a, b). k a < k b) (mset (List.product xs xs)))
           = unordered_pairs (\<lambda>a b. g (a, b)) xs"
  using assms(1)
proof (induction xs)
  case Nil
  show ?case by simp
next
  case (Cons x xs)
  from Cons.prems have "k x \<notin> k ` set xs" and d: "distinct (map k xs)"
    by simp_all
  then have nk: "k b \<noteq> k x" if "b \<in> set xs" for b
    using that by (metis imageI)
  let ?M = "mset xs"
  have right: "image_mset g (filter_mset (\<lambda>(a, b). k a < k b) (image_mset (Pair x) ?M))
           = image_mset (\<lambda>b. g (x, b)) (filter_mset (\<lambda>b. k x < k b) ?M)"
    by (induction xs) simp_all
  have left: "image_mset g (filter_mset (\<lambda>(a, b). k a < k b) (image_mset (\<lambda>a. (a, x)) ?M))
           = image_mset (\<lambda>b. g (x, b)) (filter_mset (\<lambda>b. k b < k x) ?M)"
    by (induction xs) (simp_all add: assms(2))
  have "filter_mset (\<lambda>b. k b < k x) ?M = filter_mset (\<lambda>b. \<not> k x < k b) ?M"
  proof (rule filter_mset_cong [OF refl])
    fix b assume "b \<in># ?M"
    then have "k b \<noteq> k x" using nk by simp
    then show "k b < k x \<longleftrightarrow> \<not> k x < k b" by auto
  qed
  then have part: "filter_mset (\<lambda>b. k x < k b) ?M + filter_mset (\<lambda>b. k b < k x) ?M = ?M"
    using multiset_partition [of ?M "\<lambda>b. k x < k b"] by simp
  have "mset (List.product (x # xs) (x # xs))
      = {#(x, x)#} + image_mset (Pair x) ?M + (image_mset (\<lambda>a. (a, x)) ?M + mset (List.product xs xs))"
    by (simp add: mset_product_snoc_right)
  then have "image_mset g (filter_mset (\<lambda>(a, b). k a < k b) (mset (List.product (x # xs) (x # xs))))
      = image_mset (\<lambda>b. g (x, b)) (filter_mset (\<lambda>b. k x < k b) ?M)
        + (image_mset (\<lambda>b. g (x, b)) (filter_mset (\<lambda>b. k b < k x) ?M)
           + image_mset g (filter_mset (\<lambda>(a, b). k a < k b) (mset (List.product xs xs))))"
    by (simp add: right left)
  also have "\<dots> = image_mset (\<lambda>b. g (x, b)) (filter_mset (\<lambda>b. k x < k b) ?M + filter_mset (\<lambda>b. k b < k x) ?M)
                   + unordered_pairs (\<lambda>a b. g (a, b)) xs"
    by (simp add: Cons.IH [OF d])
  also have "\<dots> = unordered_pairs (\<lambda>a b. g (a, b)) (x # xs)"
    by (simp only: part unordered_pairs.simps)
  finally show ?case .
qed

lemma canonical_signature_unordered:
  assumes "distinct (map fst nodes)"
  shows "canonical_signature nodes = unordered_pairs (\<lambda>a b. pair_entry (a, b)) nodes"
  unfolding canonical_signature_def node_pairs_def mset_filter
  by (rule oriented_pairs_unordered [where g = pair_entry and k = fst, OF assms pair_entry_commute])


subsection \<open>Isometries\<close>






lemma isometry_comp:
  assumes "\<And>p q. dist2 (f p) (f q) = dist2 p q" and "\<And>p q. dist2 (g p) (g q) = dist2 p q"
  shows "dist2 ((f \<circ> g) p) ((f \<circ> g) q) = dist2 p q"
  by (simp add: assms)


subsection \<open>Invariance of the canonical signature\<close>





subsection \<open>The labels of a motif from its canonical signature\<close>

lemma image_mset_unordered_pairs:
  "image_mset h (unordered_pairs g xs) = unordered_pairs (\<lambda>a b. h (g a b)) xs"
  by (induction xs) (simp_all add: multiset.map_comp comp_def)

lemma size_unordered_pairs: "2 * size (unordered_pairs g xs) = length xs * (length xs - 1)"
proof (induction xs)
  case Nil
  show ?case by simp
next
  case (Cons x xs)
  have "2 * size (unordered_pairs g (x # xs)) = 2 * length xs + 2 * size (unordered_pairs g xs)"
    by simp
  also have "\<dots> = 2 * length xs + length xs * (length xs - 1)"
    by (simp only: Cons.IH)
  also have "\<dots> = length (x # xs) * (length (x # xs) - 1)"
    by (cases "length xs") (simp_all add: algebra_simps)
  finally show ?case .
qed

lemma occurrences_empty: "occurrences c {#} = 0"
  by (simp add: occurrences_def)

lemma occurrences_union: "occurrences c (M + N) = occurrences c M + occurrences c N"
  by (simp add: occurrences_def)

lemma occurrences_normalize_label:
  "(if fst (normalize_label (l, m)) = c then 1 else 0) + (if snd (normalize_label (l, m)) = c then 1 else (0::nat))
     = (if l = c then 1 else 0) + (if m = c then 1 else 0)"
  by (cases "l \<le> m") (auto simp: normalize_label_def min_def max_def)

lemma occurrences_row:
  "occurrences c (image_mset (\<lambda>b. normalize_label (l, snd b)) (mset xs))
     = length xs * (if l = c then 1 else 0) + count (mset (map snd xs)) c"
proof (induction xs)
  case Nil
  show ?case by (simp add: occurrences_def)
next
  case (Cons x xs)
  have "occurrences c (image_mset (\<lambda>b. normalize_label (l, snd b)) (mset (x # xs)))
      = ((if l = c then 1 else 0) + (if snd x = c then 1 else 0))
        + occurrences c (image_mset (\<lambda>b. normalize_label (l, snd b)) (mset xs))"
    by (simp add: occurrences_def occurrences_normalize_label)
  then show ?case by (simp add: Cons.IH)
qed

lemma occurrences_unordered_pairs:
  "occurrences c (unordered_pairs (\<lambda>a b. normalize_label (snd a, snd b)) xs)
     = (length xs - 1) * count (mset (map snd xs)) c"
proof (induction xs)
  case Nil
  show ?case by (simp add: occurrences_empty)
next
  case (Cons x xs)
  show ?case
  proof (cases xs)
    case Nil
    then show ?thesis by (simp add: occurrences_empty)
  next
    case (Cons y ys)
    then obtain n where n: "length xs = Suc n" by simp
    have "occurrences c (unordered_pairs (\<lambda>a b. normalize_label (snd a, snd b)) (x # xs))
        = occurrences c (image_mset (\<lambda>b. normalize_label (snd x, snd b)) (mset xs))
          + occurrences c (unordered_pairs (\<lambda>a b. normalize_label (snd a, snd b)) xs)"
      by (simp add: occurrences_union)
    also have "\<dots> = length xs * (if snd x = c then 1 else 0) + count (mset (map snd xs)) c
                     + (length xs - 1) * count (mset (map snd xs)) c"
      by (simp only: occurrences_row Cons.IH)
    also have "\<dots> = (length (x # xs) - 1) * count (mset (map snd (x # xs))) c"
      by (simp add: n algebra_simps)
    finally show ?thesis .
  qed
qed

lemma pairs_size_determines_length:
  assumes "a * (a - 1) = b * (b - 1)" and "2 \<le> (a::nat)"
  shows "a = b"
proof (rule ccontr)
  assume ne: "a \<noteq> b"
  have mono: "x * (x - 1) < y * (y - 1)" if "x < y" "2 \<le> y" for x y :: nat
  proof -
    from that have "x - 1 \<le> y - 1" "0 < y - 1" by simp_all
    from that(1) \<open>0 < y - 1\<close> have "x * (y - 1) < y * (y - 1)" by simp
    moreover have "x * (x - 1) \<le> x * (y - 1)" using \<open>x - 1 \<le> y - 1\<close> by simp
    ultimately show ?thesis by linarith
  qed
  from ne consider "a < b" | "b < a" by linarith
  then show False
  proof cases
    case 1
    with assms(2) have "2 \<le> b" by simp
    from mono [OF 1 this] assms(1) show False by simp
  next
    case 2
    from mono [OF 2 assms(2)] assms(1) show False by simp
  qed
qed

lemma canonical_signature_labels:
  assumes "distinct (map fst xs)" and "distinct (map fst ys)" and "2 \<le> length xs"
    and "canonical_signature xs = canonical_signature ys"
  shows "mset (map snd xs) = mset (map snd ys)"
proof -
  let ?U = "\<lambda>zs :: (point \<times> 'a) list. unordered_pairs (\<lambda>a b. pair_entry (a, b)) zs"
  let ?L = "\<lambda>zs :: (point \<times> 'a) list. unordered_pairs (\<lambda>a b. normalize_label (snd a, snd b)) zs"
  from assms(1,2,4) have U: "?U xs = ?U ys"
    by (simp only: canonical_signature_unordered)
  then have "2 * size (?U xs) = 2 * size (?U ys)" by simp
  then have "length xs * (length xs - 1) = length ys * (length ys - 1)"
    by (simp only: size_unordered_pairs)
  then have len: "length xs = length ys"
    using assms(3) by (rule pairs_size_determines_length)
  have "image_mset snd (?U zs) = ?L zs" for zs :: "(point \<times> 'a) list"
    unfolding image_mset_unordered_pairs by (simp add: pair_entry_def)
  with U have L: "?L xs = ?L ys" by metis
  show ?thesis
  proof (rule multiset_eqI)
    fix c
    from L have "occurrences c (?L xs) = occurrences c (?L ys)" by simp
    then have "(length xs - 1) * count (mset (map snd xs)) c = (length ys - 1) * count (mset (map snd ys)) c"
      by (simp only: occurrences_unordered_pairs)
    with len assms(3) show "count (mset (map snd xs)) c = count (mset (map snd ys)) c"
      by simp
  qed
qed

text \<open>
  Claim C7. For two motifs (nodes with pairwise distinct coordinates, the first with at
  least two nodes) whose multisets of node labels differ, both signatures are computed
  without error and \<open>compare_structures\<close> returns \<open>False\<close> on them; nothing is assumed of
  the distances, which may coincide.
\<close>

theorem signature_discrimination:
  assumes "distinct (map fst xs)" and "distinct (map fst ys)" and "2 \<le> length xs"
    and "mset (map snd xs) \<noteq> mset (map snd ys)"
  shows "\<exists>sig1 labels1 sig2 labels2.
           geometric_signature (structure_frame xs) = Inr (sig1, labels1)
         \<and> geometric_signature (structure_frame ys) = Inr (sig2, labels2)
         \<and> \<not> compare_structures sig1 sig2 labels1 labels2
         \<and> \<not> compare_structures sig2 sig1 labels2 labels1"
proof -
  from geometric_signature_canonical [OF assms(1)] obtain sig1 labels1 where
    1: "geometric_signature (structure_frame xs) = Inr (sig1, labels1)" by blast
  from geometric_signature_canonical [OF assms(2)] obtain sig2 labels2 where
    2: "geometric_signature (structure_frame ys) = Inr (sig2, labels2)" by blast
  have ne: "canonical_signature xs \<noteq> canonical_signature ys"
    using canonical_signature_labels [OF assms(1,2,3)] assms(4) by blast
  then have "\<not> compare_structures sig1 sig2 labels1 labels2"
    by (simp add: compare_structures_canonical [OF assms(1,2) 1 2])
  moreover from ne have "\<not> compare_structures sig2 sig1 labels2 labels1"
    using compare_structures_canonical [OF assms(2,1) 2 1] by auto
  ultimately show ?thesis using 1 2 by blast
qed

theorem signature_discrimination_witness:
  "distinct (map fst motif_01) \<and> distinct (map fst motif_00) \<and> 2 \<le> length motif_01
   \<and> mset (map snd motif_01) \<noteq> mset (map snd motif_00)
   \<and> map (\<lambda>(a, b). dist2 (fst a) (fst b)) (node_pairs motif_01)
       = map (\<lambda>(a, b). dist2 (fst a) (fst b)) (node_pairs motif_00)
   \<and> (\<exists>sig1 labels1 sig2 labels2.
           geometric_signature (structure_frame motif_01) = Inr (sig1, labels1)
         \<and> geometric_signature (structure_frame motif_00) = Inr (sig2, labels2)
         \<and> \<not> compare_structures sig1 sig2 labels1 labels2
         \<and> \<not> compare_structures sig2 sig1 labels2 labels1)"
proof -
  have d1: "distinct (map fst motif_01)" and d0: "distinct (map fst motif_00)"
    and l: "2 \<le> length motif_01"
    by (simp_all add: motif_01_def motif_00_def)
  have ne: "mset (map snd motif_01) \<noteq> mset (map snd motif_00)"
    by (simp add: motif_01_def motif_00_def)
  have ds: "map (\<lambda>(a, b). dist2 (fst a) (fst b)) (node_pairs motif_01)
       = map (\<lambda>(a, b). dist2 (fst a) (fst b)) (node_pairs motif_00)"
    by (simp add: motif_01_def motif_00_def node_pairs_def)
  from signature_discrimination [OF d1 d0 l ne] d1 d0 l ne ds
  show ?thesis by (intro conjI)
qed

end
